theory Spec2Isabelle
  imports Complex_Main "HOL-Library.Word"
begin

unbundle bit_operations_syntax

section \<open>The STL decoder\<close>

text \<open>
  The component \<^verbatim>\<open>STLPointCloudHero\<close> turns the bytes of an STL file into a point cloud.
  This part embeds its decoder: \<^verbatim>\<open>parseSTL\<close>, \<^verbatim>\<open>parseASCIISTL\<close> and \<^verbatim>\<open>parseBinarySTL\<close>.

  An \<^verbatim>\<open>ArrayBuffer\<close> is a list of bytes. The decoder has no \<^verbatim>\<open>throw\<close> of its own: the
  only exception on its paths is the \<^verbatim>\<open>RangeError\<close> of a \<^verbatim>\<open>DataView\<close> read that leaves
  the buffer. \<open>FormatError\<close> is the error kind the specification names; it is part of the
  type so that statements can speak of it, and no function below returns it.
\<close>

type_synonym byte = "8 word"

datatype error = RangeError | FormatError

text \<open>
  An element of a \<^verbatim>\<open>Float32Array\<close>, as a program can read it: either NaN, which a
  JavaScript number carries without payload or sign, or the float with the given bit pattern
  (signed zeros, subnormals and the infinities included). \<^verbatim>\<open>getFloat32\<close> yields a number,
  the number is pushed on an array and the array is copied into a \<^verbatim>\<open>Float32Array\<close>; every
  float32 that is not a NaN passes through unchanged, since a double represents it exactly.
\<close>

datatype float32 = NaN32 | Bits32 "32 word"

definition isNaNBits :: "32 word \<Rightarrow> bool" where
  "isNaNBits w = (w AND 0x7F800000 = 0x7F800000 \<and> w AND 0x007FFFFF \<noteq> 0)"

definition float32OfBits :: "32 word \<Rightarrow> float32" where
  "float32OfBits w = (if isNaNBits w then NaN32 else Bits32 w)"

text \<open>Four bytes read in little-endian order (\<^verbatim>\<open>littleEndian = true\<close>).\<close>

definition le32 :: "byte \<Rightarrow> byte \<Rightarrow> byte \<Rightarrow> byte \<Rightarrow> 32 word" where
  "le32 b0 b1 b2 b3 =
     ucast b0 OR push_bit 8 (ucast b1) OR push_bit 16 (ucast b2) OR push_bit 24 (ucast b3)"

text \<open>\<^verbatim>\<open>DataView.getUint32(byteOffset, true)\<close>: a read beyond the view throws.\<close>

definition getUint32 :: "byte list \<Rightarrow> nat \<Rightarrow> error + 32 word" where
  "getUint32 view byteOffset =
     (if byteOffset + 4 \<le> length view
      then Inr (le32 (view ! byteOffset) (view ! (byteOffset + 1))
                     (view ! (byteOffset + 2)) (view ! (byteOffset + 3)))
      else Inl RangeError)"

text \<open>\<^verbatim>\<open>DataView.getFloat32(byteOffset, true)\<close>.\<close>

definition getFloat32 :: "byte list \<Rightarrow> nat \<Rightarrow> error + float32" where
  "getFloat32 view byteOffset =
     (case getUint32 view byteOffset of
        Inl e \<Rightarrow> Inl e
      | Inr w \<Rightarrow> Inr (float32OfBits w))"

text \<open>
  The inner loop of \<^verbatim>\<open>parseBinarySTL\<close>, \<^verbatim>\<open>for (let j = 0; j < 9; j++)\<close>, by the number of
  reads still to do: each read pushes one value and moves the offset by 4.
\<close>

fun readFloats :: "byte list \<Rightarrow> nat \<Rightarrow> nat \<Rightarrow> float32 list \<Rightarrow> error + (nat \<times> float32 list)" where
  "readFloats view 0 offset vertices = Inr (offset, vertices)"
| "readFloats view (Suc j) offset vertices =
     (case getFloat32 view offset of
        Inl e \<Rightarrow> Inl e
      | Inr v \<Rightarrow> readFloats view j (offset + 4) (vertices @ [v]))"

text \<open>
  The outer loop, \<^verbatim>\<open>for (let i = 0; i < triangles; i++)\<close>, by the number of records still to
  read: 12 bytes of normal are skipped, nine floats are read, 2 bytes of attribute are skipped.
\<close>

fun readTriangles :: "byte list \<Rightarrow> nat \<Rightarrow> nat \<Rightarrow> float32 list \<Rightarrow> error + float32 list" where
  "readTriangles view 0 offset vertices = Inr vertices"
| "readTriangles view (Suc i) offset vertices =
     (case readFloats view 9 (offset + 12) vertices of
        Inl e \<Rightarrow> Inl e
      | Inr (offset', vertices') \<Rightarrow> readTriangles view i (offset' + 2) vertices')"

definition parseBinarySTL :: "byte list \<Rightarrow> error + float32 list" where
  "parseBinarySTL view =
     (case getUint32 view 80 of
        Inl e \<Rightarrow> Inl e
      | Inr triangles \<Rightarrow> readTriangles view (unat triangles) 84 [])"

text \<open>
  Text. A string is a list of 8-bit characters, which covers 7-bit STL text; the white space
  of \<^verbatim>\<open>trim\<close> and of the pattern \<^verbatim>\<open>\s\<close> is then tab, line feed, vertical tab, form feed,
  carriage return and space.
\<close>

definition isWhiteSpace :: "char \<Rightarrow> bool" where
  "isWhiteSpace c =
     (c = CHR 0x09 \<or> c = CHR 0x0A \<or> c = CHR 0x0B \<or> c = CHR 0x0C \<or> c = CHR 0x0D \<or> c = CHR 0x20)"

definition trim :: "string \<Rightarrow> string" where
  "trim s = rev (dropWhile isWhiteSpace (rev (dropWhile isWhiteSpace s)))"

text \<open>\<^verbatim>\<open>s.split(sep)\<close> for a one-character separator: \<open>n\<close> separators give \<open>n + 1\<close> pieces.\<close>

fun splitOn :: "char \<Rightarrow> string \<Rightarrow> string list" where
  "splitOn sep [] = [[]]"
| "splitOn sep (c # cs) =
     (if c = sep then [] # splitOn sep cs
      else (case splitOn sep cs of
              [] \<Rightarrow> [[c]]
            | t # ts \<Rightarrow> (c # t) # ts))"

text \<open>\<^verbatim>\<open>s.split(/\s+/)\<close>: every maximal run of white space is one separator.\<close>

function splitWhiteSpace :: "string \<Rightarrow> string list" where
  "splitWhiteSpace [] = [[]]"
| "splitWhiteSpace (c # cs) =
     (if isWhiteSpace c then [] # splitWhiteSpace (dropWhile isWhiteSpace cs)
      else (case splitWhiteSpace cs of
              [] \<Rightarrow> [[c]]
            | t # ts \<Rightarrow> (c # t) # ts))"
  by pat_completeness auto
termination
  by (relation "measure length") (auto simp: less_Suc_eq_le length_dropWhile_le)

definition startsWith :: "string \<Rightarrow> string \<Rightarrow> bool" where
  "startsWith s p = (take (length p) s = p)"

text \<open>
  The loop of \<^verbatim>\<open>parseASCIISTL\<close> over the lines. The conversion of a token to a number and
  then to a float32 (\<^verbatim>\<open>Number\<close>, and the copy into the \<^verbatim>\<open>Float32Array\<close>) belongs to the
  platform; it is the parameter \<open>num\<close>.
\<close>

fun parseLines :: "(string \<Rightarrow> float32) \<Rightarrow> string list \<Rightarrow> float32 list \<Rightarrow> float32 list" where
  "parseLines num [] vertices = vertices"
| "parseLines num (l # ls) vertices =
     (let line = trim l in
      if startsWith line ''vertex''
      then parseLines num ls (vertices @ map num (drop 1 (splitWhiteSpace line)))
      else parseLines num ls vertices)"

definition parseASCIISTL :: "(string \<Rightarrow> float32) \<Rightarrow> string \<Rightarrow> float32 list" where
  "parseASCIISTL num data = parseLines num (splitOn (CHR 0x0A) data) []"

text \<open>\<^verbatim>\<open>new TextDecoder().decode(buffer)\<close> on 7-bit text: one character for each byte.\<close>

definition decodeText :: "byte list \<Rightarrow> string" where
  "decodeText buffer = map (\<lambda>b. char_of (unat b)) buffer"

text \<open>The format test of \<^verbatim>\<open>parseSTL\<close>; the five bytes spell \<^verbatim>\<open>solid\<close>.\<close>

definition isASCII :: "byte list \<Rightarrow> bool" where
  "isASCII buffer = (length buffer < 80 \<or> take 5 buffer = [0x73, 0x6F, 0x6C, 0x69, 0x64])"

definition parseSTL :: "(string \<Rightarrow> float32) \<Rightarrow> byte list \<Rightarrow> error + float32 list" where
  "parseSTL num buffer =
     (if isASCII buffer then Inr (parseASCIISTL num (decodeText buffer))
      else parseBinarySTL buffer)"

subsection \<open>A binary STL encoder\<close>

text \<open>
  Modelled from the spec: the repository has no encoder, and the round-trip property needs
  one. The layout is the specification's: an 80-byte header, the triangle count as a
  little-endian unsigned 32-bit integer, then for each triangle a record of 50 bytes
  (12 bytes of normal, nine little-endian 32-bit floats, 2 bytes of attribute).
\<close>

type_synonym vertexBits = "32 word \<times> 32 word \<times> 32 word"

datatype facet =
  Facet (normal: vertexBits) (vertex1: vertexBits) (vertex2: vertexBits) (vertex3: vertexBits)
        (attribute: "16 word")

definition bytes32 :: "32 word \<Rightarrow> byte list" where
  "bytes32 w = [ucast w, ucast (drop_bit 8 w), ucast (drop_bit 16 w), ucast (drop_bit 24 w)]"

definition bytes16 :: "16 word \<Rightarrow> byte list" where
  "bytes16 w = [ucast w, ucast (drop_bit 8 w)]"

fun vertexWords :: "vertexBits \<Rightarrow> 32 word list" where
  "vertexWords (a, b, c) = [a, b, c]"

definition facetCoords :: "facet \<Rightarrow> 32 word list" where
  "facetCoords f = vertexWords (vertex1 f) @ vertexWords (vertex2 f) @ vertexWords (vertex3 f)"

definition encodeFacet :: "facet \<Rightarrow> byte list" where
  "encodeFacet f =
     concat (map bytes32 (vertexWords (normal f)))
     @ concat (map bytes32 (facetCoords f))
     @ bytes16 (attribute f)"

definition encodeBinarySTL :: "byte list \<Rightarrow> facet list \<Rightarrow> byte list" where
  "encodeBinarySTL header facets =
     header @ bytes32 (of_nat (length facets)) @ concat (map encodeFacet facets)"

section \<open>Numbers\<close>

text \<open>
  A JavaScript number: NaN, the two infinities, or a finite value. The finite values are taken
  as exact reals: the rounding of an arithmetic result to the nearest double, and the overflow
  of a large result to an infinity, are not modelled. Zero has no sign. The only use of the
  sign of a zero is in a division by it; every divisor of this program that can be zero
  (\<^verbatim>\<open>cellSize\<close>, \<^verbatim>\<open>totalArea\<close>, \<^verbatim>\<open>targetPointCount\<close>, \<^verbatim>\<open>boundingBox.size.y\<close>) is a positive zero
  when it is one, and division treats it so.
\<close>

datatype number = NaN | NegInf | Fin real | PosInf

text \<open>
  The operators \<^verbatim>\<open>-x\<close>, \<^verbatim>\<open>+\<close>, \<^verbatim>\<open>-\<close>, \<^verbatim>\<open>*\<close> and \<^verbatim>\<open>/\<close> as IEEE 754 defines them on NaN and the
  infinities.
\<close>

fun jneg :: "number \<Rightarrow> number" where
  "jneg NaN = NaN"
| "jneg NegInf = PosInf"
| "jneg (Fin a) = Fin (- a)"
| "jneg PosInf = NegInf"

fun jadd :: "number \<Rightarrow> number \<Rightarrow> number" where
  "jadd (Fin a) (Fin b) = Fin (a + b)"
| "jadd NaN _ = NaN"
| "jadd _ NaN = NaN"
| "jadd PosInf NegInf = NaN"
| "jadd NegInf PosInf = NaN"
| "jadd PosInf _ = PosInf"
| "jadd _ PosInf = PosInf"
| "jadd NegInf _ = NegInf"
| "jadd _ NegInf = NegInf"

definition jsub :: "number \<Rightarrow> number \<Rightarrow> number" where
  "jsub a b = jadd a (jneg b)"

fun jsign :: "number \<Rightarrow> real" where
  "jsign (Fin a) = sgn a"
| "jsign PosInf = 1"
| "jsign NegInf = - 1"
| "jsign NaN = 0"

fun jmul :: "number \<Rightarrow> number \<Rightarrow> number" where
  "jmul (Fin a) (Fin b) = Fin (a * b)"
| "jmul NaN _ = NaN"
| "jmul _ NaN = NaN"
| "jmul a b = (if jsign a * jsign b = 0 then NaN else if 0 < jsign a * jsign b then PosInf else NegInf)"

fun jdiv :: "number \<Rightarrow> number \<Rightarrow> number" where
  "jdiv NaN _ = NaN"
| "jdiv _ NaN = NaN"
| "jdiv (Fin a) (Fin b) =
     (if b = 0 then (if a = 0 then NaN else if 0 < a then PosInf else NegInf)
      else Fin (a / b))"
| "jdiv (Fin a) _ = Fin 0"
| "jdiv PosInf (Fin b) = (if 0 \<le> b then PosInf else NegInf)"
| "jdiv NegInf (Fin b) = (if 0 \<le> b then NegInf else PosInf)"
| "jdiv _ _ = NaN"

text \<open>
  \<^verbatim>\<open>Math.sqrt\<close>, \<^verbatim>\<open>Math.floor\<close> and \<^verbatim>\<open>Math.ceil\<close>.
\<close>

fun jsqrt :: "number \<Rightarrow> number" where
  "jsqrt (Fin a) = (if a < 0 then NaN else Fin (sqrt a))"
| "jsqrt PosInf = PosInf"
| "jsqrt _ = NaN"

fun jfloor :: "number \<Rightarrow> number" where
  "jfloor (Fin a) = Fin (of_int \<lfloor>a\<rfloor>)"
| "jfloor n = n"

fun jceil :: "number \<Rightarrow> number" where
  "jceil (Fin a) = Fin (of_int \<lceil>a\<rceil>)"
| "jceil n = n"

text \<open>
  The comparisons \<^verbatim>\<open><\<close>, \<^verbatim>\<open><=\<close>, \<^verbatim>\<open>>\<close> and \<^verbatim>\<open>>=\<close>: false as soon as one side is NaN.
\<close>

fun jlt :: "number \<Rightarrow> number \<Rightarrow> bool" where
  "jlt (Fin a) (Fin b) = (a < b)"
| "jlt NaN _ = False"
| "jlt _ NaN = False"
| "jlt _ NegInf = False"
| "jlt PosInf _ = False"
| "jlt NegInf _ = True"
| "jlt _ PosInf = True"

fun jle :: "number \<Rightarrow> number \<Rightarrow> bool" where
  "jle (Fin a) (Fin b) = (a \<le> b)"
| "jle NaN _ = False"
| "jle _ NaN = False"
| "jle NegInf _ = True"
| "jle _ PosInf = True"
| "jle _ NegInf = False"
| "jle PosInf _ = False"

definition jgt :: "number \<Rightarrow> number \<Rightarrow> bool" where
  "jgt a b = jlt b a"

definition jge :: "number \<Rightarrow> number \<Rightarrow> bool" where
  "jge a b = jle b a"

text \<open>
  \<^verbatim>\<open>Math.max\<close> and \<^verbatim>\<open>Math.min\<close> of two numbers: NaN as soon as one argument is NaN. The
  three-argument \<^verbatim>\<open>Math.max(a, b, c)\<close> is \<open>jmax (jmax a b) c\<close>.
\<close>

fun jmax :: "number \<Rightarrow> number \<Rightarrow> number" where
  "jmax NaN _ = NaN"
| "jmax _ NaN = NaN"
| "jmax a b = (if jlt a b then b else a)"

fun jmin :: "number \<Rightarrow> number \<Rightarrow> number" where
  "jmin NaN _ = NaN"
| "jmin _ NaN = NaN"
| "jmin a b = (if jlt b a then b else a)"

text \<open>
  \<^verbatim>\<open>Math.sin\<close> and \<^verbatim>\<open>Math.cos\<close>.
\<close>

fun jsin :: "number \<Rightarrow> number" where
  "jsin (Fin a) = Fin (sin a)"
| "jsin _ = NaN"

fun jcos :: "number \<Rightarrow> number" where
  "jcos (Fin a) = Fin (cos a)"
| "jcos _ = NaN"

section \<open>The point cloud\<close>

text \<open>
  The part of \<^verbatim>\<open>THREE.Vector3\<close> the program uses: \<^verbatim>\<open>subVectors\<close>, \<^verbatim>\<open>cross\<close>, \<^verbatim>\<open>length\<close>,
  \<^verbatim>\<open>distanceTo\<close> and \<^verbatim>\<open>addScaledVector\<close>.
\<close>

datatype vec3 = Vector3 (vx: number) (vy: number) (vz: number)

definition subVectors :: "vec3 \<Rightarrow> vec3 \<Rightarrow> vec3" where
  "subVectors a b = Vector3 (jsub (vx a) (vx b)) (jsub (vy a) (vy b)) (jsub (vz a) (vz b))"

definition cross :: "vec3 \<Rightarrow> vec3 \<Rightarrow> vec3" where
  "cross a b =
     Vector3 (jsub (jmul (vy a) (vz b)) (jmul (vz a) (vy b)))
             (jsub (jmul (vz a) (vx b)) (jmul (vx a) (vz b)))
             (jsub (jmul (vx a) (vy b)) (jmul (vy a) (vx b)))"

definition vlength :: "vec3 \<Rightarrow> number" where
  "vlength v =
     jsqrt (jadd (jadd (jmul (vx v) (vx v)) (jmul (vy v) (vy v))) (jmul (vz v) (vz v)))"

definition distanceTo :: "vec3 \<Rightarrow> vec3 \<Rightarrow> number" where
  "distanceTo a b =
     (let dx = jsub (vx a) (vx b); dy = jsub (vy a) (vy b); dz = jsub (vz a) (vz b)
      in jsqrt (jadd (jadd (jmul dx dx) (jmul dy dy)) (jmul dz dz)))"

definition addScaledVector :: "vec3 \<Rightarrow> vec3 \<Rightarrow> number \<Rightarrow> vec3" where
  "addScaledVector this v s =
     Vector3 (jadd (vx this) (jmul (vx v) s)) (jadd (vy this) (jmul (vy v) s))
             (jadd (vz this) (jmul (vz v) s))"

subsection \<open>Stage 1: the shape boundary\<close>

text \<open>
  \<^verbatim>\<open>defineShapeBoundary\<close>. The loop \<^verbatim>\<open>for (let i = 0; i < vertices.length; i += 9)\<close> makes one face
  of every nine values. A read beyond the end of the typed array is \<^verbatim>\<open>undefined\<close>, and the
  constructor of \<^verbatim>\<open>Vector3\<close> takes 0 for an argument that is \<^verbatim>\<open>undefined\<close>.
\<close>

type_synonym face = "vec3 \<times> vec3 \<times> vec3"

definition element :: "number list \<Rightarrow> nat \<Rightarrow> number" where
  "element vertices k = (if k < length vertices then vertices ! k else Fin 0)"

function facesOf :: "number list \<Rightarrow> face list" where
  "facesOf vertices =
     (if vertices = [] then []
      else (Vector3 (element vertices 0) (element vertices 1) (element vertices 2),
            Vector3 (element vertices 3) (element vertices 4) (element vertices 5),
            Vector3 (element vertices 6) (element vertices 7) (element vertices 8))
           # facesOf (drop 9 vertices))"
  by pat_completeness auto
termination
  by (relation "measure length") auto

text \<open>
  The area of a face: half the length of the cross product of two edges.
\<close>

definition faceArea :: "face \<Rightarrow> number" where
  "faceArea f =
     (case f of (v1, v2, v3) \<Rightarrow>
        let edge1 = subVectors v2 v1; edge2 = subVectors v3 v1
        in jmul (vlength (cross edge1 edge2)) (Fin 0.5))"

text \<open>
  The vertices in the order in which the two nested \<^verbatim>\<open>forEach\<close> visit them. The six running
  extrema of the source are six folds over this list.
\<close>

definition faceVertices :: "face list \<Rightarrow> vec3 list" where
  "faceVertices fs = concat (map (\<lambda>(v1, v2, v3). [v1, v2, v3]) fs)"

record boundingBox =
  box_min :: vec3
  box_max :: vec3
  box_size :: vec3

record shapeBoundary =
  faces :: "face list"
  faceAreas :: "number list"
  totalArea :: number
  boundingBox :: boundingBox
  objectCenter :: vec3
  hollowRadius :: number

definition defineShapeBoundary :: "number list \<Rightarrow> shapeBoundary" where
  "defineShapeBoundary vertices =
     (let fs = facesOf vertices;
          areas = map faceArea fs;
          tot = foldl jadd (Fin 0) areas;
          vs = faceVertices fs;
          minX = foldl (\<lambda>m v. jmin m (vx v)) PosInf vs;
          minY = foldl (\<lambda>m v. jmin m (vy v)) PosInf vs;
          minZ = foldl (\<lambda>m v. jmin m (vz v)) PosInf vs;
          maxX = foldl (\<lambda>m v. jmax m (vx v)) NegInf vs;
          maxY = foldl (\<lambda>m v. jmax m (vy v)) NegInf vs;
          maxZ = foldl (\<lambda>m v. jmax m (vz v)) NegInf vs;
          objectSize = jmax (jmax (jsub maxX minX) (jsub maxY minY)) (jsub maxZ minZ)
      in \<lparr> faces = fs,
           faceAreas = areas,
           totalArea = tot,
           boundingBox = \<lparr> box_min = Vector3 minX minY minZ,
                            box_max = Vector3 maxX maxY maxZ,
                            box_size = Vector3 (jsub maxX minX) (jsub maxY minY) (jsub maxZ minZ) \<rparr>,
           objectCenter = Vector3 (jmul (jadd minX maxX) (Fin 0.5))
                                  (jmul (jadd minY maxY) (Fin 0.5))
                                  (jmul (jadd minZ maxZ) (Fin 0.5)),
           hollowRadius = jmul objectSize (Fin 0.2) \<rparr>)"

subsection \<open>Stage 2: the point distribution\<close>

text \<open>
  \<^verbatim>\<open>generatePointsInShape\<close>. The target count is a natural number.
\<close>

definition avgSpacing :: "number \<Rightarrow> nat \<Rightarrow> number" where
  "avgSpacing tot targetPointCount =
     jmul (jsqrt (jdiv tot (Fin (real targetPointCount)))) (Fin 0.8)"

definition minDistance :: "number \<Rightarrow> nat \<Rightarrow> number" where
  "minDistance tot targetPointCount = jmul (avgSpacing tot targetPointCount) (Fin 0.7)"

text \<open>
  The spatial hash. Its key is the text of three numbers separated by commas; two keys are
  the same text exactly when the three numbers are the same, so the key is the triple.
\<close>

type_synonym hashKey = "number \<times> number \<times> number"

definition getHashKey :: "number \<Rightarrow> vec3 \<Rightarrow> hashKey" where
  "getHashKey cellSize p =
     (jfloor (jdiv (vx p) cellSize), jfloor (jdiv (vy p) cellSize), jfloor (jdiv (vz p) cellSize))"

definition addToSpatialHash :: "number \<Rightarrow> (hashKey \<rightharpoonup> vec3 list) \<Rightarrow> vec3 \<Rightarrow> (hashKey \<rightharpoonup> vec3 list)" where
  "addToSpatialHash cellSize spatialHash p =
     (let key = getHashKey cellSize p
      in spatialHash(key \<mapsto> (case spatialHash key of None \<Rightarrow> [] | Some ps \<Rightarrow> ps) @ [p]))"

text \<open>
  \<^verbatim>\<open>isValidDistance\<close>: the three nested loops over \<open>-1, 0, 1\<close>. The early \<^verbatim>\<open>return false\<close> makes
  the result the conjunction of the tests.
\<close>

definition neighborOffsets :: "real list" where
  "neighborOffsets = [-1, 0, 1]"

definition isValidDistance :: "number \<Rightarrow> number \<Rightarrow> (hashKey \<rightharpoonup> vec3 list) \<Rightarrow> vec3 \<Rightarrow> bool" where
  "isValidDistance cellSize minDist spatialHash newPoint =
     list_all (\<lambda>dx. list_all (\<lambda>dy. list_all (\<lambda>dz.
        (case spatialHash
                (jadd (jfloor (jdiv (vx newPoint) cellSize)) (Fin dx),
                 jadd (jfloor (jdiv (vy newPoint) cellSize)) (Fin dy),
                 jadd (jfloor (jdiv (vz newPoint) cellSize)) (Fin dz)) of
           None \<Rightarrow> True
         | Some neighbors \<Rightarrow>
             list_all (\<lambda>neighbor. \<not> jlt (distanceTo newPoint neighbor) minDist) neighbors))
        neighborOffsets) neighborOffsets) neighborOffsets"

definition isPointInValidRegion :: "shapeBoundary \<Rightarrow> vec3 \<Rightarrow> bool" where
  "isPointInValidRegion b p = jgt (distanceTo p (objectCenter b)) (hollowRadius b)"

text \<open>
  The candidates. A loop \<^verbatim>\<open>for (let i = 0; i <= bound; i++)\<close> runs over the indices
  \<open>loopRange bound\<close>: none when the bound is NaN or negative, and without end when the bound is
  \<open>Infinity\<close>, which is the value \<open>None\<close>.
\<close>

record candidate =
  point :: vec3
  faceIndex :: nat

fun loopRange :: "number \<Rightarrow> nat list option" where
  "loopRange (Fin b) = Some (if b < 0 then [] else [0 ..< nat \<lfloor>b\<rfloor> + 1])"
| "loopRange PosInf = None"
| "loopRange _ = Some []"

text \<open>
  The barycentric combination, built as the source builds it: from the zero vector by three
  \<^verbatim>\<open>addScaledVector\<close>.
\<close>

definition surfacePoint :: "face \<Rightarrow> number \<Rightarrow> number \<Rightarrow> number \<Rightarrow> vec3" where
  "surfacePoint f u v w =
     (case f of (v1, v2, v3) \<Rightarrow>
        addScaledVector
          (addScaledVector (addScaledVector (Vector3 (Fin 0) (Fin 0) (Fin 0)) v1 u) v2 v) v3 w)"

text \<open>
  The loop over \<open>j\<close>. Its \<^verbatim>\<open>break\<close> leaves this loop only.
\<close>

fun innerLoop :: "nat \<Rightarrow> face \<Rightarrow> nat \<Rightarrow> number \<Rightarrow> nat \<Rightarrow> nat list \<Rightarrow> candidate list \<Rightarrow> candidate list" where
  "innerLoop targetPointCount f k samplesPerEdge i [] candidatePoints = candidatePoints"
| "innerLoop targetPointCount f k samplesPerEdge i (j # js) candidatePoints =
     (if length candidatePoints \<ge> targetPointCount * 5 then candidatePoints
      else
        let u = jdiv (Fin (real i)) samplesPerEdge;
            v = jdiv (Fin (real j)) samplesPerEdge;
            w = jsub (jsub (Fin 1) u) v
        in innerLoop targetPointCount f k samplesPerEdge i js
             (if jge w (Fin 0)
              then candidatePoints @ [\<lparr> point = surfacePoint f u v w, faceIndex = k \<rparr>]
              else candidatePoints))"

text \<open>
  The loop over \<open>i\<close>. The bound of the inner loop is \<open>samplesPerEdge - i\<close>, which is
  \<open>Infinity\<close> only when \<open>samplesPerEdge\<close> is, and then the loop over \<open>i\<close> has no end either.
\<close>

fun outerLoop :: "nat \<Rightarrow> face \<Rightarrow> nat \<Rightarrow> number \<Rightarrow> nat list \<Rightarrow> candidate list \<Rightarrow> candidate list option" where
  "outerLoop targetPointCount f k samplesPerEdge [] candidatePoints = Some candidatePoints"
| "outerLoop targetPointCount f k samplesPerEdge (i # is) candidatePoints =
     (case loopRange (jsub samplesPerEdge (Fin (real i))) of
        None \<Rightarrow> None
      | Some js \<Rightarrow>
          outerLoop targetPointCount f k samplesPerEdge is
            (innerLoop targetPointCount f k samplesPerEdge i js candidatePoints))"

definition samplesPerEdge :: "number \<Rightarrow> number \<Rightarrow> nat \<Rightarrow> number" where
  "samplesPerEdge area tot targetPointCount =
     (let faceSamples =
            jmax (Fin 1)
              (jfloor (jmul (jmul (jdiv area tot) (Fin (real targetPointCount))) (Fin 3)))
      in jceil (jsqrt faceSamples))"

text \<open>
  The body of \<^verbatim>\<open>faces.forEach((face, faceIndex) => ...)\<close>. An area read beyond the end of
  \<^verbatim>\<open>faceAreas\<close> is \<^verbatim>\<open>undefined\<close>, which arithmetic turns into NaN.
\<close>

definition sampleFace :: "shapeBoundary \<Rightarrow> nat \<Rightarrow> face \<Rightarrow> nat \<Rightarrow> candidate list \<Rightarrow> candidate list option" where
  "sampleFace b targetPointCount f k candidatePoints =
     (let area = (if k < length (faceAreas b) then faceAreas b ! k else NaN);
          spe = samplesPerEdge area (totalArea b) targetPointCount
      in case loopRange spe of
           None \<Rightarrow> None
         | Some is \<Rightarrow> outerLoop targetPointCount f k spe is candidatePoints)"

fun sampleFaces :: "shapeBoundary \<Rightarrow> nat \<Rightarrow> face list \<Rightarrow> nat \<Rightarrow> candidate list \<Rightarrow> candidate list option" where
  "sampleFaces b targetPointCount [] k candidatePoints = Some candidatePoints"
| "sampleFaces b targetPointCount (f # fs) k candidatePoints =
     (case sampleFace b targetPointCount f k candidatePoints of
        None \<Rightarrow> None
      | Some cs \<Rightarrow> sampleFaces b targetPointCount fs (Suc k) cs)"

text \<open>
  The shuffle, \<^verbatim>\<open>for (let i = candidatePoints.length - 1; i > 0; i--)\<close>. The results of the
  successive calls of \<^verbatim>\<open>Math.random\<close> are \<open>rnd 0\<close>, \<open>rnd 1\<close>, ...; each lies in \<open>[0, 1)\<close>.
\<close>

fun shuffleLoop :: "(nat \<Rightarrow> real) \<Rightarrow> nat \<Rightarrow> nat \<Rightarrow> 'a list \<Rightarrow> 'a list" where
  "shuffleLoop rnd n 0 xs = xs"
| "shuffleLoop rnd n (Suc i) xs =
     (let j = nat \<lfloor>rnd n * real (Suc i + 1)\<rfloor>
      in shuffleLoop rnd (Suc n) i (xs[Suc i := xs ! j, j := xs ! Suc i]))"

definition shuffle :: "(nat \<Rightarrow> real) \<Rightarrow> 'a list \<Rightarrow> 'a list" where
  "shuffle rnd xs = shuffleLoop rnd 0 (length xs - 1) xs"

text \<open>
  The colour of an accepted point.
\<close>

definition pointColor :: "boundingBox \<Rightarrow> vec3 \<Rightarrow> number list" where
  "pointColor bb p =
     (let heightFactor = jdiv (jsub (vy p) (vy (box_min bb))) (vy (box_size bb));
          baseIntensity = jadd (Fin 0.6) (jmul heightFactor (Fin 0.4));
          positionVariation =
            jmul (jadd (jsin (jmul (vx p) (Fin 10))) (jcos (jmul (vz p) (Fin 10)))) (Fin 0.1);
          intensity = jmax (Fin 0.3) (jmin (Fin 1.0) (jadd baseIntensity positionVariation))
      in [jmul intensity (Fin 0.9), jmul intensity (Fin 1.0), jmul intensity (Fin 1.2)])"

text \<open>
  The selection loop and its state: the accepted points, the hash and the two output arrays.
  The copy of the output arrays into \<^verbatim>\<open>Float32Array\<close>s rounds each value to a float32; like every
  other rounding it is not modelled.
\<close>

record selection =
  selectedPoints :: "vec3 list"
  spatialHash :: "hashKey \<rightharpoonup> vec3 list"
  points :: "number list"
  colors :: "number list"

fun selectLoop :: "shapeBoundary \<Rightarrow> nat \<Rightarrow> candidate list \<Rightarrow> selection \<Rightarrow> selection" where
  "selectLoop b targetPointCount [] st = st"
| "selectLoop b targetPointCount (c # cs) st =
     (if length (selectedPoints st) \<ge> targetPointCount then st
      else if isPointInValidRegion b (point c)
              \<and> isValidDistance (minDistance (totalArea b) targetPointCount)
                    (minDistance (totalArea b) targetPointCount) (spatialHash st) (point c)
      then selectLoop b targetPointCount cs
             \<lparr> selectedPoints = selectedPoints st @ [point c],
               spatialHash = addToSpatialHash (minDistance (totalArea b) targetPointCount)
                               (spatialHash st) (point c),
               points = points st @ [vx (point c), vy (point c), vz (point c)],
               colors = colors st @ pointColor (boundingBox b) (point c) \<rparr>
      else selectLoop b targetPointCount cs st)"

definition generatePointsInShape :: "shapeBoundary \<Rightarrow> nat \<Rightarrow> (nat \<Rightarrow> real) \<Rightarrow> (number list \<times> number list) option" where
  "generatePointsInShape b targetPointCount rnd =
     (case sampleFaces b targetPointCount (faces b) 0 [] of
        None \<Rightarrow> None
      | Some candidatePoints \<Rightarrow>
          let st = selectLoop b targetPointCount (shuffle rnd candidatePoints)
                     \<lparr> selectedPoints = [], spatialHash = Map.empty, points = [], colors = [] \<rparr>
          in Some (points st, colors st))"

text \<open>
  \<^verbatim>\<open>createSparsePointCloud\<close>: the two stages in sequence.
\<close>

definition createSparsePointCloud :: "number list \<Rightarrow> nat \<Rightarrow> (nat \<Rightarrow> real) \<Rightarrow> (number list \<times> number list) option" where
  "createSparsePointCloud vertices targetPointCount rnd =
     generatePointsInShape (defineShapeBoundary vertices) targetPointCount rnd"

section \<open>Notions for the statements\<close>

text \<open>
  The two output arrays hold three numbers for every point; the renderer reads them with an
  item size of 3. \<open>positionsOf\<close> and \<open>colorsOf\<close> read an array back in groups of three.
\<close>

fun positionsOf :: "number list \<Rightarrow> vec3 list" where
  "positionsOf (a # b # c # rest) = Vector3 a b c # positionsOf rest"
| "positionsOf _ = []"

fun colorsOf :: "number list \<Rightarrow> (number \<times> number \<times> number) list" where
  "colorsOf (r # g # b # rest) = (r, g, b) # colorsOf rest"
| "colorsOf _ = []"

definition coordinates :: "vec3 \<Rightarrow> number list" where
  "coordinates p = [vx p, vy p, vz p]"

text \<open>A point of a face: a combination of its vertices with weights that are not negative
  and add up to 1.\<close>

definition onFace :: "face \<Rightarrow> vec3 \<Rightarrow> bool" where
  "onFace f p \<longleftrightarrow>
     (\<exists>u v w. 0 \<le> u \<and> 0 \<le> v \<and> 0 \<le> w \<and> u + v + w = 1
        \<and> p = surfacePoint f (Fin u) (Fin v) (Fin w))"

definition finiteVec :: "vec3 \<Rightarrow> bool" where
  "finiteVec p \<longleftrightarrow> (\<exists>a b c. p = Vector3 (Fin a) (Fin b) (Fin c))"

text \<open>The values an area can take, and the values that leave no valid region when they are
  the hollow radius.\<close>

definition nonNegative :: "number \<Rightarrow> bool" where
  "nonNegative n \<longleftrightarrow> n = NaN \<or> n = PosInf \<or> (\<exists>a. n = Fin a \<and> 0 \<le> a)"

definition unbounded :: "number \<Rightarrow> bool" where
  "unbounded n \<longleftrightarrow> n = NaN \<or> n = PosInf"


text \<open>
  Three meshes of one triangle each, for the examples: \<open>flatMesh\<close> lies in the plane
  \<open>y = 0\<close>; \<open>smallMesh\<close> and \<open>largeMesh\<close> stand in the plane \<open>x = 0\<close>, with areas 1 and 2;
  \<open>lineMesh\<close> has its three vertices on one line.
\<close>

definition flatMesh :: "number list" where
  "flatMesh = [Fin 0, Fin 0, Fin 0,  Fin 1, Fin 0, Fin 0,  Fin 0, Fin 0, Fin 1]"

definition smallMesh :: "number list" where
  "smallMesh = [Fin 0, Fin 0, Fin 0,  Fin 0, Fin 0, Fin 2,  Fin 0, Fin 1, Fin 0]"




section \<open>Properties of the decoder\<close>

lemma le32_bytes32:
  "le32 (ucast w) (ucast (drop_bit 8 w)) (ucast (drop_bit 16 w)) (ucast (drop_bit 24 w)) = w"
proof (rule bit_word_eqI)
  fix n :: nat
  assume "n < LENGTH(32)"
  then have n: "n < 32" by simp
  consider "n < 8" | "8 \<le> n" "n < 16" | "16 \<le> n" "n < 24" | "24 \<le> n"
    by linarith
  then show "bit (le32 (ucast w) (ucast (drop_bit 8 w)) (ucast (drop_bit 16 w))
                   (ucast (drop_bit 24 w))) n = bit w n"
    using n by cases (auto simp add: le32_def bit_simps)
qed

subsection \<open>Reading an encoded file back\<close>

lemma getUint32_append:
  "getUint32 (pre @ bytes32 w @ post) (length pre) = Inr w"
  by (simp add: getUint32_def bytes32_def nth_append le32_bytes32)

lemma getFloat32_append:
  "getFloat32 (pre @ bytes32 w @ post) (length pre) = Inr (float32OfBits w)"
  by (simp add: getFloat32_def getUint32_append)

lemma length_bytes32 [simp]: "length (bytes32 w) = 4"
  by (simp add: bytes32_def)

lemma readFloats_encoded:
  "readFloats (pre @ concat (map bytes32 ws) @ post) (length ws) (length pre) acc
     = Inr (length pre + 4 * length ws, acc @ map float32OfBits ws)"
proof (induction ws arbitrary: pre acc)
  case Nil
  then show ?case by simp
next
  case (Cons w ws)
  have "getFloat32 (pre @ bytes32 w @ (concat (map bytes32 ws) @ post)) (length pre)
          = Inr (float32OfBits w)"
    by (rule getFloat32_append)
  moreover have "readFloats ((pre @ bytes32 w) @ concat (map bytes32 ws) @ post) (length ws)
          (length (pre @ bytes32 w)) (acc @ [float32OfBits w])
        = Inr (length (pre @ bytes32 w) + 4 * length ws,
               (acc @ [float32OfBits w]) @ map float32OfBits ws)"
    by (rule Cons.IH)
  ultimately show ?case by simp
qed

lemma length_facetCoords [simp]: "length (facetCoords f) = 9"
  by (cases f) (auto simp: facetCoords_def split: prod.splits)

lemma length_encodeFacet [simp]: "length (encodeFacet f) = 50"
  by (cases f) (auto simp: encodeFacet_def facetCoords_def bytes16_def bytes32_def split: prod.splits)

lemma readFloats_facet:
  "readFloats (pre @ encodeFacet f @ post) 9 (length pre + 12) acc
     = Inr (length pre + 48, acc @ map float32OfBits (facetCoords f))"
proof -
  let ?n = "concat (map bytes32 (vertexWords (normal f)))"
  have ln: "length ?n = 12"
    by (cases "normal f") (auto split: prod.splits)
  have "readFloats ((pre @ ?n) @ concat (map bytes32 (facetCoords f)) @ (bytes16 (attribute f) @ post))
          (length (facetCoords f)) (length (pre @ ?n)) acc
      = Inr (length (pre @ ?n) + 4 * length (facetCoords f), acc @ map float32OfBits (facetCoords f))"
    by (rule readFloats_encoded)
  then show ?thesis
    by (simp add: encodeFacet_def ln)
qed

lemma readTriangles_encoded:
  "readTriangles (pre @ concat (map encodeFacet fs)) (length fs) (length pre) acc
     = Inr (acc @ concat (map (\<lambda>f. map float32OfBits (facetCoords f)) fs))"
proof (induction fs arbitrary: pre acc)
  case Nil
  then show ?case by simp
next
  case (Cons f fs)
  have a: "readFloats (pre @ encodeFacet f @ concat (map encodeFacet fs)) 9 (length pre + 12) acc
     = Inr (length pre + 48, acc @ map float32OfBits (facetCoords f))"
    by (rule readFloats_facet)
  have b: "readTriangles ((pre @ encodeFacet f) @ concat (map encodeFacet fs)) (length fs)
            (length (pre @ encodeFacet f)) (acc @ map float32OfBits (facetCoords f))
     = Inr ((acc @ map float32OfBits (facetCoords f))
             @ concat (map (\<lambda>f. map float32OfBits (facetCoords f)) fs))"
    by (rule Cons.IH)
  show ?case using a b by (simp add: add.commute)
qed

subsection \<open>Truncated binary files\<close>

lemma getFloat32_Inl: "getFloat32 view off = Inl e \<Longrightarrow> e = RangeError"
  by (auto simp: getFloat32_def getUint32_def split: if_splits sum.splits)

lemma getFloat32_Inr: "getFloat32 view off = Inr v \<Longrightarrow> off + 4 \<le> length view"
  by (auto simp: getFloat32_def getUint32_def split: if_splits sum.splits)

lemma readFloats_Inl: "readFloats view j off acc = Inl e \<Longrightarrow> e = RangeError"
  by (induction j arbitrary: off acc) (auto split: sum.splits dest: getFloat32_Inl)

lemma readFloats_Inr:
  "readFloats view j off acc = Inr (off', acc') \<Longrightarrow>
     off' = off + 4 * j \<and> (0 < j \<longrightarrow> off' \<le> length view)"
proof (induction j arbitrary: off acc)
  case 0
  then show ?case by simp
next
  case (Suc j)
  from Suc.prems obtain v where v: "getFloat32 view off = Inr v"
    and r: "readFloats view j (off + 4) (acc @ [v]) = Inr (off', acc')"
    by (auto split: sum.splits)
  from getFloat32_Inr [OF v] have b: "off + 4 \<le> length view" .
  from Suc.IH [OF r] have "off' = off + 4 + 4 * j" "0 < j \<longrightarrow> off' \<le> length view"
    by auto
  then show ?case using b by (cases "j = 0") auto
qed

lemma readTriangles_truncated:
  "length view + 2 < off + 50 * n \<Longrightarrow> off \<le> length view + 2 \<Longrightarrow>
     readTriangles view n off acc = Inl RangeError"
proof (induction n arbitrary: off acc)
  case 0
  then show ?case by simp
next
  case (Suc n)
  show ?case
  proof (cases "readFloats view 9 (off + 12) acc")
    case (Inl e)
    then show ?thesis using readFloats_Inl [OF Inl] by simp
  next
    case (Inr r)
    obtain off' acc' where r: "r = (off', acc')" by (cases r)
    from readFloats_Inr [OF Inr [unfolded r]]
    have o: "off' = off + 48" "off' \<le> length view" by auto
    have "readTriangles view n (off' + 2) acc' = Inl RangeError"
      using Suc.prems o by (intro Suc.IH) auto
    then show ?thesis using Inr r by simp
  qed
qed

lemma readTriangles_Inl: "readTriangles view n off acc = Inl e \<Longrightarrow> e = RangeError"
proof (induction n arbitrary: off acc)
  case 0
  then show ?case by simp
next
  case (Suc n)
  then show ?case
    by (auto split: sum.splits prod.splits dest: readFloats_Inl)
qed

text \<open>No path of the decoder raises the error kind of the specification.\<close>

lemma parseSTL_no_FormatError: "parseSTL num buffer \<noteq> Inl FormatError"
  by (auto simp: parseSTL_def parseBinarySTL_def getUint32_def
           split: if_splits sum.splits dest: readTriangles_Inl)

text \<open>
  Claim C1, as the code has it. A binary-format buffer whose declared triangle count needs a
  coordinate beyond the end of the buffer (the buffer is more than 2 bytes short of
  \<open>84 + 50 * triangles\<close>) makes \<^verbatim>\<open>parseSTL\<close> fail, and the failure is the \<^verbatim>\<open>RangeError\<close> of the
  \<^verbatim>\<open>DataView\<close> read that leaves the buffer: the code compares no length beforehand and has no
  \<open>FormatError\<close>. The result is the error alone; no vertex is returned.
\<close>

theorem parseSTL_truncated_RangeError:
  assumes "\<not> isASCII buffer"
    and "getUint32 buffer 80 = Inr triangles"
    and "length buffer + 2 < 84 + 50 * unat triangles"
  shows "parseSTL num buffer = Inl RangeError"
proof -
  have "84 \<le> length buffer"
    using assms(2) by (auto simp: getUint32_def split: if_splits)
  then have "readTriangles buffer (unat triangles) 84 [] = Inl RangeError"
    using assms(3) by (intro readTriangles_truncated) auto
  then show ?thesis
    using assms(1,2) by (simp add: parseSTL_def parseBinarySTL_def)
qed

text \<open>
  A buffer of 131 bytes that declares one triangle: the last coordinate would end at byte 132.
\<close>

theorem parseSTL_truncated_RangeError_witness:
  "\<not> isASCII (replicate 80 0 @ [1, 0, 0, 0] @ replicate 47 0)
   \<and> getUint32 (replicate 80 0 @ [1, 0, 0, 0] @ replicate 47 0) 80 = Inr 1
   \<and> length (replicate 80 0 @ [1, 0, 0, 0] @ replicate 47 0 :: byte list) + 2 < 84 + 50 * unat (1 :: 32 word)
   \<and> (\<forall>num. parseSTL num (replicate 80 0 @ [1, 0, 0, 0] @ replicate 47 0) = Inl RangeError)"
proof -
  have a: "\<not> isASCII (replicate 80 0 @ [1, 0, 0, 0] @ replicate 47 0)" by code_simp
  have b: "getUint32 (replicate 80 0 @ [1, 0, 0, 0] @ replicate 47 0) 80 = Inr 1" by code_simp
  have c: "length (replicate 80 0 @ [1, 0, 0, 0] @ replicate 47 0 :: byte list) + 2 < 84 + 50 * unat (1 :: 32 word)"
    by simp
  show ?thesis using a b c parseSTL_truncated_RangeError [OF a b c] by blast
qed

text \<open>
  The claim as the specification states it fails: a buffer of 132 bytes that declares one
  triangle is 2 bytes short of the 134 bytes the count implies, and it is decoded without any
  error, because the two attribute bytes of a record are skipped and never read.
\<close>

theorem parseSTL_short_record_accepted:
  "\<not> isASCII (replicate 80 0 @ [1, 0, 0, 0] @ replicate 48 0)
   \<and> getUint32 (replicate 80 0 @ [1, 0, 0, 0] @ replicate 48 0) 80 = Inr 1
   \<and> length (replicate 80 0 @ [1, 0, 0, 0] @ replicate 48 0 :: byte list) < 84 + 50 * unat (1 :: 32 word)
   \<and> (\<forall>num. parseSTL num (replicate 80 0 @ [1, 0, 0, 0] @ replicate 48 0)
         = Inr (replicate 9 (Bits32 0)))"
proof -
  have a: "\<not> isASCII (replicate 80 0 @ [1, 0, 0, 0] @ replicate 48 0)" by code_simp
  have b: "getUint32 (replicate 80 0 @ [1, 0, 0, 0] @ replicate 48 0) 80 = Inr 1" by code_simp
  have c: "parseSTL num (replicate 80 0 @ [1, 0, 0, 0] @ replicate 48 0)
         = Inr (replicate 9 (Bits32 0))" for num by code_simp
  show ?thesis using a b c by simp
qed

subsection \<open>Complete binary files\<close>

text \<open>
  The other side of the bound: a binary-format buffer that holds every coordinate of every
  declared record is decoded, to nine values for each record.
\<close>

lemma getFloat32_in_range:
  "off + 4 \<le> length view \<Longrightarrow> \<exists>v. getFloat32 view off = Inr v"
  by (simp add: getFloat32_def getUint32_def)

lemma readFloats_in_range:
  "off + 4 * j \<le> length view \<Longrightarrow>
     \<exists>acc'. readFloats view j off acc = Inr (off + 4 * j, acc') \<and> length acc' = length acc + j"
proof (induction j arbitrary: off acc)
  case 0
  then show ?case by simp
next
  case (Suc j)
  then have "off + 4 \<le> length view" by simp
  from getFloat32_in_range [OF this] obtain v where v: "getFloat32 view off = Inr v" by blast
  from Suc.prems have "off + 4 + 4 * j \<le> length view" by simp
  from Suc.IH [OF this, of "acc @ [v]"] obtain acc' where
    "readFloats view j (off + 4) (acc @ [v]) = Inr (off + 4 + 4 * j, acc')"
    "length acc' = length (acc @ [v]) + j" by blast
  then show ?case using v by simp
qed

lemma readTriangles_in_range:
  "off + 50 * n \<le> length view + 2 \<Longrightarrow>
     \<exists>vs. readTriangles view n off acc = Inr vs \<and> length vs = length acc + 9 * n"
proof (induction n arbitrary: off acc)
  case 0
  then show ?case by simp
next
  case (Suc n)
  then have "off + 12 + 4 * 9 \<le> length view" by simp
  from readFloats_in_range [OF this, of acc] obtain acc' where
    a: "readFloats view 9 (off + 12) acc = Inr (off + 12 + 4 * 9, acc')"
       "length acc' = length acc + 9" by blast
  from Suc.prems have "off + 50 + 50 * n \<le> length view + 2" by simp
  from Suc.IH [OF this, of acc'] obtain vs where
    "readTriangles view n (off + 50) acc' = Inr vs" "length vs = length acc' + 9 * n" by blast
  then show ?case using a by (simp add: add.commute)
qed

lemma parseSTL_complete:
  assumes "\<not> isASCII buffer"
    and "getUint32 buffer 80 = Inr triangles"
    and "84 + 50 * unat triangles \<le> length buffer + 2"
  shows "\<exists>vs. parseSTL num buffer = Inr vs \<and> length vs = 9 * unat triangles"
  using assms readTriangles_in_range [of 84 "unat triangles" buffer "[]"]
  by (simp add: parseSTL_def parseBinarySTL_def)

subsection \<open>ASCII files\<close>






subsection \<open>The round trip\<close>

lemma float32OfBits_bits: "\<not> isNaNBits w \<Longrightarrow> float32OfBits w = Bits32 w"
  by (simp add: float32OfBits_def)

lemma float32OfBits_NaN: "isNaNBits w \<Longrightarrow> float32OfBits w = NaN32"
  by (simp add: float32OfBits_def)

text \<open>
  Claim C9, as the code has it. Decoding the encoding of a list of facets gives back the
  coordinates in order: every coordinate that is not a NaN with exactly its bits, and every
  NaN as NaN. The count must fit the 32-bit field.
\<close>

theorem parseSTL_encodeBinarySTL:
  assumes "length header = 80"
    and "take 5 header \<noteq> [0x73, 0x6F, 0x6C, 0x69, 0x64]"
    and "length facets < 2 ^ 32"
  shows "parseSTL num (encodeBinarySTL header facets)
           = Inr (concat (map (\<lambda>f. map float32OfBits (facetCoords f)) facets))"
proof -
  let ?buf = "encodeBinarySTL header facets"
  have nasc: "\<not> isASCII ?buf"
    using assms(1,2) by (simp add: isASCII_def encodeBinarySTL_def)
  have cnt: "getUint32 ?buf 80 = Inr (of_nat (length facets))"
    using getUint32_append [of header "of_nat (length facets)" "concat (map encodeFacet facets)"] assms(1)
    by (simp add: encodeBinarySTL_def)
  have un: "unat (of_nat (length facets) :: 32 word) = length facets"
    using assms(3) by (simp add: unsigned_of_nat take_bit_nat_eq_self)
  have "readTriangles ((header @ bytes32 (of_nat (length facets))) @ concat (map encodeFacet facets))
          (length facets) (length (header @ bytes32 (of_nat (length facets)))) []
        = Inr ([] @ concat (map (\<lambda>f. map float32OfBits (facetCoords f)) facets))"
    by (rule readTriangles_encoded)
  then have "readTriangles ?buf (length facets) 84 []
        = Inr (concat (map (\<lambda>f. map float32OfBits (facetCoords f)) facets))"
    using assms(1) by (simp add: encodeBinarySTL_def)
  then show ?thesis
    using nasc cnt un by (simp add: parseSTL_def parseBinarySTL_def)
qed

text \<open>
  One facet with the vertices \<open>(1, 0, 0)\<close>, \<open>(0, 1, 0)\<close> and \<open>(0, 0, 1)\<close>
  (\<open>0x3F800000\<close> is the float 1) under a header of 80 zero bytes.
\<close>

theorem parseSTL_encodeBinarySTL_witness:
  "length (replicate 80 0 :: byte list) = 80
   \<and> take 5 (replicate 80 0 :: byte list) \<noteq> [0x73, 0x6F, 0x6C, 0x69, 0x64]
   \<and> length [Facet (0, 0, 0) (0x3F800000, 0, 0) (0, 0x3F800000, 0) (0, 0, 0x3F800000) 0]
         < (2 :: nat) ^ 32
   \<and> (\<forall>num. parseSTL num (encodeBinarySTL (replicate 80 0)
           [Facet (0, 0, 0) (0x3F800000, 0, 0) (0, 0x3F800000, 0) (0, 0, 0x3F800000) 0])
         = Inr [Bits32 0x3F800000, Bits32 0, Bits32 0,
                Bits32 0, Bits32 0x3F800000, Bits32 0,
                Bits32 0, Bits32 0, Bits32 0x3F800000])"
proof -
  let ?f = "Facet (0, 0, 0) (0x3F800000, 0, 0) (0, 0x3F800000, 0) (0, 0, 0x3F800000) 0"
  have a: "length (replicate 80 0 :: byte list) = 80" by simp
  have b: "take 5 (replicate 80 0 :: byte list) \<noteq> [0x73, 0x6F, 0x6C, 0x69, 0x64]"
    by code_simp
  have c: "length [?f] < (2 :: nat) ^ 32" by simp
  have d: "concat (map (\<lambda>f. map float32OfBits (facetCoords f)) [?f])
           = [Bits32 0x3F800000, Bits32 0, Bits32 0,
              Bits32 0, Bits32 0x3F800000, Bits32 0,
              Bits32 0, Bits32 0, Bits32 0x3F800000]"
    by code_simp
  show ?thesis
    using a b c d parseSTL_encodeBinarySTL [OF a b c] by simp
qed

text \<open>
  The claim as the specification states it fails on NaN coordinates. The two facets below
  differ in the bits of their first coordinate, a signalling NaN (\<open>0x7F800001\<close>) and the
  quiet NaN \<open>0x7FC00000\<close>; their encodings decode to the same sequence, so the decoded
  sequence does not determine the bits that were encoded.
\<close>

theorem parseSTL_NaN_payload_lost:
  "vertex1 (Facet (0, 0, 0) (0x7F800001, 0, 0) (0, 0, 0) (0, 0, 0) 0)
     \<noteq> vertex1 (Facet (0, 0, 0) (0x7FC00000, 0, 0) (0, 0, 0) (0, 0, 0) 0)
   \<and> (\<forall>num. parseSTL num (encodeBinarySTL (replicate 80 0)
           [Facet (0, 0, 0) (0x7F800001, 0, 0) (0, 0, 0) (0, 0, 0) 0])
         = Inr (NaN32 # replicate 8 (Bits32 0)))
   \<and> (\<forall>num. parseSTL num (encodeBinarySTL (replicate 80 0)
           [Facet (0, 0, 0) (0x7FC00000, 0, 0) (0, 0, 0) (0, 0, 0) 0])
         = Inr (NaN32 # replicate 8 (Bits32 0)))"
proof -
  have a: "vertex1 (Facet (0, 0, 0) (0x7F800001, 0, 0) (0, 0, 0) (0, 0, 0) 0)
     \<noteq> vertex1 (Facet (0, 0, 0) (0x7FC00000, 0, 0) (0, 0, 0) (0, 0, 0) 0)"
    by simp
  have b: "parseSTL num (encodeBinarySTL (replicate 80 0)
           [Facet (0, 0, 0) (0x7F800001, 0, 0) (0, 0, 0) (0, 0, 0) 0])
         = Inr (NaN32 # replicate 8 (Bits32 0))" for num
    by code_simp
  have c: "parseSTL num (encodeBinarySTL (replicate 80 0)
           [Facet (0, 0, 0) (0x7FC00000, 0, 0) (0, 0, 0) (0, 0, 0) 0])
         = Inr (NaN32 # replicate 8 (Bits32 0))" for num
    by code_simp
  show ?thesis using a b c by blast
qed

section \<open>Properties of the point cloud\<close>

declare facesOf.simps [simp del]

subsection \<open>Numbers\<close>

lemma jneg_Fin_iff [simp]: "jneg a = Fin c \<longleftrightarrow> a = Fin (- c)"
  by (cases a) auto

lemma jadd_Fin_iff: "jadd a b = Fin c \<longleftrightarrow> (\<exists>x y. a = Fin x \<and> b = Fin y \<and> c = x + y)"
  by (cases a; cases b) auto

lemma jsub_Fin_iff: "jsub a b = Fin c \<longleftrightarrow> (\<exists>x y. a = Fin x \<and> b = Fin y \<and> c = x - y)"
  by (cases a; cases b) (auto simp: jsub_def)

lemma jsub_Fin [simp]: "jsub (Fin x) (Fin y) = Fin (x - y)"
  by (simp add: jsub_def)

lemma jmul_Fin_iff: "jmul a b = Fin c \<longleftrightarrow> (\<exists>x y. a = Fin x \<and> b = Fin y \<and> c = x * y)"
  by (cases a; cases b) (auto split: if_splits)

lemma jsqrt_Fin_iff: "jsqrt a = Fin c \<longleftrightarrow> (\<exists>x. a = Fin x \<and> 0 \<le> x \<and> c = sqrt x)"
  by (cases a) auto

lemma jgt_Fin [simp]: "jgt (Fin x) (Fin y) \<longleftrightarrow> y < x"
  by (simp add: jgt_def)

lemma jge_Fin [simp]: "jge (Fin x) (Fin y) \<longleftrightarrow> y \<le> x"
  by (simp add: jge_def)

lemma jlt_FinD: "jlt a (Fin y) \<Longrightarrow> a = NegInf \<or> (\<exists>x. a = Fin x \<and> x < y)"
  by (cases a) auto

lemma jge_Fin_right: "jge a (Fin y) \<longleftrightarrow> a = PosInf \<or> (\<exists>x. a = Fin x \<and> y \<le> x)"
  by (cases a) (auto simp: jge_def)

lemma loopRange_None [simp]: "loopRange n = None \<longleftrightarrow> n = PosInf"
  by (cases n) auto

lemma jsub_PosInf_iff [simp]: "jsub a (Fin y) = PosInf \<longleftrightarrow> a = PosInf"
  by (cases a) (auto simp: jsub_def)

subsection \<open>Candidates lie on faces\<close>

lemma innerLoop_onFace:
  assumes "0 \<le> s"
    and "\<forall>c \<in> set cands. P (point c)"
    and "\<And>p. onFace f p \<Longrightarrow> P p"
  shows "\<forall>c \<in> set (innerLoop T f k (Fin s) i js cands). P (point c)"
  using assms(2)
proof (induction js arbitrary: cands)
  case Nil
  then show ?case by simp
next
  case (Cons j js)
  show ?case
  proof (cases "T * 5 \<le> length cands")
    case True
    then show ?thesis using Cons.prems by simp
  next
    case False
    let ?u = "jdiv (Fin (real i)) (Fin s)"
    let ?v = "jdiv (Fin (real j)) (Fin s)"
    let ?w = "jsub (jsub (Fin 1) ?u) ?v"
    have new: "P (surfacePoint f ?u ?v ?w)" if w: "jge ?w (Fin 0)"
    proof (cases "s = 0")
      case True
      then have "\<not> jge ?w (Fin 0)"
        by (auto simp: jge_def jsub_def)
      with w show ?thesis by simp
    next
      case False
      with assms(1) have s: "0 < s" by simp
      have "onFace f (surfacePoint f (Fin (real i / s)) (Fin (real j / s)) (Fin (1 - real i / s - real j / s)))"
        unfolding onFace_def
        using s w False
        by (intro exI [of _ "real i / s"] exI [of _ "real j / s"] exI [of _ "1 - real i / s - real j / s"])
           auto
      then show ?thesis using False assms(3) by simp
    qed
    have "\<forall>c \<in> set (innerLoop T f k (Fin s) i js
             (if jge ?w (Fin 0) then cands @ [\<lparr>point = surfacePoint f ?u ?v ?w, faceIndex = k\<rparr>]
              else cands)). P (point c)"
      using Cons.prems new by (intro Cons.IH) auto
    then show ?thesis using False by (simp add: Let_def)
  qed
qed

lemma outerLoop_onFace:
  assumes "0 \<le> s"
    and "\<forall>c \<in> set cands. P (point c)"
    and "\<And>p. onFace f p \<Longrightarrow> P p"
    and "outerLoop T f k (Fin s) is cands = Some cands'"
  shows "\<forall>c \<in> set cands'. P (point c)"
  using assms(2,4)
proof (induction "is" arbitrary: cands)
  case Nil
  then show ?case by simp
next
  case (Cons i "is")
  from Cons.prems(2) obtain js where js: "loopRange (jsub (Fin s) (Fin (real i))) = Some js"
    and r: "outerLoop T f k (Fin s) is (innerLoop T f k (Fin s) i js cands) = Some cands'"
    by (auto split: option.splits)
  have "\<forall>c \<in> set (innerLoop T f k (Fin s) i js cands). P (point c)"
    using assms(1) Cons.prems(1) assms(3) by (rule innerLoop_onFace)
  then show ?case using r by (rule Cons.IH)
qed

lemma outerLoop_Nil [simp]: "outerLoop T f k spe [] cands = Some cands"
  by simp

lemma sampleFace_onFace:
  assumes "\<forall>c \<in> set cands. P (point c)"
    and "\<And>p. onFace f p \<Longrightarrow> P p"
    and "sampleFace b T f k cands = Some cands'"
  shows "\<forall>c \<in> set cands'. P (point c)"
proof -
  define spe where "spe = samplesPerEdge (if k < length (faceAreas b) then faceAreas b ! k else NaN)
                            (totalArea b) T"
  from assms(3) obtain "is" where i: "loopRange spe = Some is"
    and r: "outerLoop T f k spe is cands = Some cands'"
    by (auto simp: sampleFace_def spe_def Let_def split: option.splits)
  show ?thesis
  proof (cases spe)
    case (Fin s)
    show ?thesis
    proof (cases "s < 0")
      case True
      then show ?thesis using i r Fin assms(1) by auto
    next
      case False
      then have "0 \<le> s" by simp
      then show ?thesis using assms(1,2) r [unfolded Fin] by (rule outerLoop_onFace)
    qed
  qed (use i r assms(1) in auto)
qed

lemma sampleFaces_onFace:
  assumes "\<forall>c \<in> set cands. P (point c)"
    and "\<And>f p. f \<in> set fs \<Longrightarrow> onFace f p \<Longrightarrow> P p"
    and "sampleFaces b T fs k cands = Some cands'"
  shows "\<forall>c \<in> set cands'. P (point c)"
  using assms
proof (induction fs arbitrary: k cands)
  case Nil
  then show ?case by simp
next
  case (Cons f fs)
  from Cons.prems(3) obtain cs where a: "sampleFace b T f k cands = Some cs"
    and r: "sampleFaces b T fs (Suc k) cs = Some cands'"
    by (auto split: option.splits)
  have pf: "\<And>p. onFace f p \<Longrightarrow> P p"
    using Cons.prems(2) [of f] by simp
  have "\<forall>c \<in> set cs. P (point c)"
    using Cons.prems(1) pf a by (rule sampleFace_onFace)
  moreover have "\<And>g p. g \<in> set fs \<Longrightarrow> onFace g p \<Longrightarrow> P p"
    by (rule Cons.prems(2)) simp_all
  ultimately show ?case
    using r by (rule Cons.IH [of cs "Suc k"])
qed

lemma positionsOf_coordinates [simp]:
  "positionsOf (concat (map coordinates ps)) = ps"
  by (induction ps) (auto simp: coordinates_def)

subsection \<open>The shuffle\<close>

lemma shuffle_index:
  assumes "0 \<le> r" "r < 1"
  shows "nat \<lfloor>r * real (Suc i + 1)\<rfloor> \<le> Suc i"
proof -
  have "r * real (Suc i + 1) < real (Suc i + 1)"
    using assms by (simp add: mult_less_cancel_right2 del: of_nat_Suc of_nat_add)
  then have "\<lfloor>r * real (Suc i + 1)\<rfloor> < int (Suc i + 1)"
    by (simp add: floor_less_iff del: of_nat_Suc of_nat_add)
  then show ?thesis by linarith
qed

lemma shuffleLoop_set:
  assumes "\<forall>n. 0 \<le> rnd n \<and> rnd n < 1"
  shows "i < length xs \<or> i = 0 \<Longrightarrow> set (shuffleLoop rnd n i xs) = set xs"
proof (induction i arbitrary: n xs)
  case 0
  then show ?case by simp
next
  case (Suc i)
  define j where "j = nat \<lfloor>rnd n * real (Suc i + 1)\<rfloor>"
  have j: "j \<le> Suc i" unfolding j_def using assms by (intro shuffle_index) auto
  have len: "Suc i < length xs" using Suc.prems by simp
  have "set (xs[Suc i := xs ! j, j := xs ! Suc i]) = set xs"
    using len j by (intro set_swap) auto
  moreover have "set (shuffleLoop rnd (Suc n) i (xs[Suc i := xs ! j, j := xs ! Suc i]))
                  = set (xs[Suc i := xs ! j, j := xs ! Suc i])"
    using len by (intro Suc.IH) auto
  ultimately show ?case by (simp add: j_def Let_def)
qed

lemma shuffle_set:
  assumes "\<forall>n. 0 \<le> rnd n \<and> rnd n < 1"
  shows "set (shuffle rnd xs) = set xs"
  unfolding shuffle_def using assms by (rule shuffleLoop_set) (cases xs; simp)

subsection \<open>The selection loop\<close>

lemma selectLoop_new:
  "\<exists>new. selectedPoints (selectLoop b T cs st) = selectedPoints st @ new
        \<and> points (selectLoop b T cs st) = points st @ concat (map coordinates new)
        \<and> colors (selectLoop b T cs st) = colors st @ concat (map (pointColor (boundingBox b)) new)
        \<and> (\<forall>p \<in> set new. p \<in> point ` set cs \<and> isPointInValidRegion b p)"
proof (induction b T cs st rule: selectLoop.induct)
  case (1 b T st)
  show ?case by (rule exI [of _ "[]"]) simp
next
  case (2 b T c cs st)
  let ?m = "minDistance (totalArea b) T"
  show ?case
  proof (cases "T \<le> length (selectedPoints st)")
    case True
    show ?thesis by (rule exI [of _ "[]"]) (use True in simp)
  next
    case full: False
    show ?thesis
    proof (cases "isPointInValidRegion b (point c) \<and> isValidDistance ?m ?m (spatialHash st) (point c)")
      case True
      let ?st = "\<lparr> selectedPoints = selectedPoints st @ [point c],
               spatialHash = addToSpatialHash ?m (spatialHash st) (point c),
               points = points st @ [vx (point c), vy (point c), vz (point c)],
               colors = colors st @ pointColor (boundingBox b) (point c) \<rparr>"
      from 2(1) full True obtain new where n:
        "selectedPoints (selectLoop b T cs ?st) = selectedPoints ?st @ new"
        "points (selectLoop b T cs ?st) = points ?st @ concat (map coordinates new)"
        "colors (selectLoop b T cs ?st) = colors ?st @ concat (map (pointColor (boundingBox b)) new)"
        "\<forall>p \<in> set new. p \<in> point ` set cs \<and> isPointInValidRegion b p"
        by auto
      show ?thesis
        by (rule exI [of _ "point c # new"]) (use full True n in \<open>simp add: coordinates_def [abs_def]\<close>)
    next
      case False
      from 2(2) full False obtain new where n:
        "selectedPoints (selectLoop b T cs st) = selectedPoints st @ new"
        "points (selectLoop b T cs st) = points st @ concat (map coordinates new)"
        "colors (selectLoop b T cs st) = colors st @ concat (map (pointColor (boundingBox b)) new)"
        "\<forall>p \<in> set new. p \<in> point ` set cs \<and> isPointInValidRegion b p"
        by auto
      show ?thesis
        by (rule exI [of _ new]) (use full False n in auto)
    qed
  qed
qed

lemma selectLoop_length:
  "length (selectedPoints st) \<le> T \<Longrightarrow> length (selectedPoints (selectLoop b T cs st)) \<le> T"
  by (induction b T cs st rule: selectLoop.induct) auto

subsection \<open>The boundary of a vertex array\<close>

lemma faces_defineShapeBoundary:
  "faces (defineShapeBoundary vs) = facesOf vs"
  by (simp add: defineShapeBoundary_def Let_def)

lemma faceAreas_defineShapeBoundary:
  "faceAreas (defineShapeBoundary vs) = map faceArea (facesOf vs)"
  by (simp add: defineShapeBoundary_def Let_def)

lemma totalArea_defineShapeBoundary:
  "totalArea (defineShapeBoundary vs) = foldl jadd (Fin 0) (map faceArea (facesOf vs))"
  by (simp add: defineShapeBoundary_def Let_def)

lemma nonNegative_jsqrt: "nonNegative (jsqrt n)"
  by (cases n) (auto simp: nonNegative_def)

lemma nonNegative_scale: "0 < c \<Longrightarrow> nonNegative n \<Longrightarrow> nonNegative (jmul n (Fin c))"
  by (cases n) (auto simp: nonNegative_def)

lemma nonNegative_faceArea: "nonNegative (faceArea f)"
  by (cases f) (auto simp add: faceArea_def Let_def vlength_def
                     intro!: nonNegative_scale nonNegative_jsqrt)

lemma foldl_jadd_Fin_start: "foldl jadd a xs = Fin t \<Longrightarrow> \<exists>s. a = Fin s"
proof (induction xs arbitrary: a)
  case Nil
  then show ?case by simp
next
  case (Cons x xs)
  then have "\<exists>s. jadd a x = Fin s" by simp
  then show ?case by (auto simp: jadd_Fin_iff)
qed

lemma foldl_jadd_Fin:
  assumes "foldl jadd (Fin s) xs = Fin t"
    and "\<forall>x \<in> set xs. nonNegative x"
  shows "s \<le> t \<and> (\<forall>x \<in> set xs. \<exists>a. x = Fin a \<and> 0 \<le> a \<and> s + a \<le> t)"
  using assms
proof (induction xs arbitrary: s)
  case Nil
  then show ?case by simp
next
  case (Cons x xs)
  from Cons.prems(1) have "\<exists>r. jadd (Fin s) x = Fin r"
    by (auto dest: foldl_jadd_Fin_start)
  then obtain a where x: "x = Fin a" by (auto simp: jadd_Fin_iff)
  with Cons.prems(2) have a: "0 \<le> a" by (auto simp: nonNegative_def)
  have "s + a \<le> t \<and> (\<forall>y \<in> set xs. \<exists>c. y = Fin c \<and> 0 \<le> c \<and> s + a + c \<le> t)"
    using Cons.prems x by (intro Cons.IH) auto
  then show ?case using x a by fastforce
qed

subsection \<open>The candidate loops end\<close>

lemma jdiv_PosInf:
  "jdiv a b = PosInf \<Longrightarrow>
     (\<exists>x. a = Fin x \<and> 0 < x \<and> b = Fin 0) \<or> (a = PosInf \<and> (\<exists>y. b = Fin y))
     \<or> (a = NegInf \<and> (\<exists>y. b = Fin y))"
  by (cases a; cases b) (auto split: if_splits)

lemma jmul_PosInf_nat: "jmul a (Fin (real n)) = PosInf \<Longrightarrow> a = PosInf"
  by (cases a) (auto split: if_splits simp: sgn_if)

lemma jmul_PosInf_3: "jmul a (Fin 3) = PosInf \<Longrightarrow> a = PosInf"
  by (cases a) (auto split: if_splits)

lemma jfloor_PosInf: "jfloor a = PosInf \<Longrightarrow> a = PosInf"
  by (cases a) auto

lemma jceil_PosInf: "jceil a = PosInf \<Longrightarrow> a = PosInf"
  by (cases a) auto

lemma jsqrt_PosInf: "jsqrt a = PosInf \<Longrightarrow> a = PosInf"
  by (cases a) (auto split: if_splits)

lemma jmax_PosInf: "jmax (Fin 1) a = PosInf \<Longrightarrow> a = PosInf"
  by (cases a) (auto split: if_splits)

lemma samplesPerEdge_PosInf:
  "samplesPerEdge area tot T = PosInf \<Longrightarrow> jdiv area tot = PosInf"
  unfolding samplesPerEdge_def Let_def
  by (blast dest: jceil_PosInf jsqrt_PosInf jmax_PosInf jfloor_PosInf jmul_PosInf_3 jmul_PosInf_nat)

lemma samplesPerEdge_facesOf:
  "samplesPerEdge
     (if k < length (map faceArea (facesOf vs)) then map faceArea (facesOf vs) ! k else NaN)
     (foldl jadd (Fin 0) (map faceArea (facesOf vs))) T \<noteq> PosInf"
proof
  let ?areas = "map faceArea (facesOf vs)"
  let ?area = "if k < length ?areas then ?areas ! k else NaN"
  let ?tot = "foldl jadd (Fin 0) ?areas"
  assume "samplesPerEdge ?area ?tot T = PosInf"
  then have d: "jdiv ?area ?tot = PosInf"
    by (rule samplesPerEdge_PosInf)
  have k: "k < length ?areas"
  proof (rule ccontr)
    assume "\<not> k < length ?areas"
    then have "?area = NaN" by presburger
    with d show False by simp
  qed
  then have area: "?area = ?areas ! k" by presburger
  have nn: "\<forall>x \<in> set ?areas. nonNegative x" by (auto simp: nonNegative_faceArea)
  from d obtain t where t: "?tot = Fin t" by (auto dest!: jdiv_PosInf)
  from foldl_jadd_Fin [OF t nn] k obtain a where a: "?areas ! k = Fin a" "0 \<le> a" "a \<le> t"
    by (metis add_0 nth_mem)
  from d show False unfolding area a t using a(2,3) by (auto split: if_splits)
qed

lemma samplesPerEdge_boundary:
  "samplesPerEdge
     (if k < length (faceAreas (defineShapeBoundary vs))
      then faceAreas (defineShapeBoundary vs) ! k else NaN)
     (totalArea (defineShapeBoundary vs)) T \<noteq> PosInf"
  unfolding faceAreas_defineShapeBoundary totalArea_defineShapeBoundary
  by (rule samplesPerEdge_facesOf)

lemma outerLoop_returns:
  "spe \<noteq> PosInf \<Longrightarrow> \<exists>cs. outerLoop T f k spe is cands = Some cs"
  by (induction "is" arbitrary: cands) (auto split: option.splits)

lemma sampleFaces_returns:
  assumes "\<And>k. samplesPerEdge (if k < length (faceAreas b) then faceAreas b ! k else NaN)
                   (totalArea b) T \<noteq> PosInf"
  shows "\<exists>cs. sampleFaces b T fs k cands = Some cs"
proof (induction fs arbitrary: k cands)
  case Nil
  then show ?case by simp
next
  case (Cons f fs)
  let ?spe = "samplesPerEdge (if k < length (faceAreas b) then faceAreas b ! k else NaN)
                   (totalArea b) T"
  from assms obtain "is" where i: "loopRange ?spe = Some is"
    by (cases "loopRange ?spe") auto
  from outerLoop_returns [OF assms] obtain cs where
    "outerLoop T f k ?spe is cands = Some cs" by blast
  then have "sampleFace b T f k cands = Some cs"
    using i by (simp add: sampleFace_def Let_def)
  then show ?case using Cons.IH [of "Suc k" cs] by simp
qed

lemma createSparsePointCloud_returns:
  "\<exists>cands. sampleFaces (defineShapeBoundary vs) T (facesOf vs) 0 [] = Some cands
     \<and> createSparsePointCloud vs T rnd =
         (let st = selectLoop (defineShapeBoundary vs) T (shuffle rnd cands)
                     \<lparr> selectedPoints = [], spatialHash = Map.empty, points = [], colors = [] \<rparr>
          in Some (points st, colors st))"
proof -
  from sampleFaces_returns [of "defineShapeBoundary vs" T "facesOf vs" 0 "[]"]
  obtain cands where "sampleFaces (defineShapeBoundary vs) T (facesOf vs) 0 [] = Some cands"
    using samplesPerEdge_boundary by blast
  then show ?thesis
    by (simp add: createSparsePointCloud_def generatePointsInShape_def
                  faces_defineShapeBoundary)
qed

lemma length_pointColor [simp]: "length (pointColor bb p) = 3"
  by (simp add: pointColor_def Let_def)

lemma length_concat_coordinates [simp]: "length (concat (map coordinates ps)) = 3 * length ps"
  by (induction ps) (auto simp: coordinates_def)

lemma length_concat_pointColor [simp]:
  "length (concat (map (pointColor bb) ps)) = 3 * length ps"
  by (induction ps) auto

text \<open>What a run of the pipeline returns, in terms of the points it accepted.\<close>

lemma createSparsePointCloud_accepted:
  "\<exists>cands sel.
      sampleFaces (defineShapeBoundary vs) T (facesOf vs) 0 [] = Some cands
    \<and> createSparsePointCloud vs T rnd =
        Some (concat (map coordinates sel),
              concat (map (pointColor (boundingBox (defineShapeBoundary vs))) sel))
    \<and> sel = selectedPoints (selectLoop (defineShapeBoundary vs) T (shuffle rnd cands)
               \<lparr> selectedPoints = [], spatialHash = Map.empty, points = [], colors = [] \<rparr>)
    \<and> length sel \<le> T
    \<and> (\<forall>p \<in> set sel. p \<in> point ` set (shuffle rnd cands)
                       \<and> isPointInValidRegion (defineShapeBoundary vs) p)"
proof -
  let ?b = "defineShapeBoundary vs"
  let ?init = "\<lparr> selectedPoints = [], spatialHash = Map.empty, points = [], colors = [] \<rparr>"
  from createSparsePointCloud_returns [of vs T rnd] obtain cands where
    c: "sampleFaces ?b T (facesOf vs) 0 [] = Some cands"
    and r: "createSparsePointCloud vs T rnd =
         (let st = selectLoop ?b T (shuffle rnd cands) ?init in Some (points st, colors st))"
    by blast
  let ?st = "selectLoop ?b T (shuffle rnd cands) ?init"
  from selectLoop_new [of ?b T "shuffle rnd cands" ?init] obtain new where
    n: "selectedPoints ?st = new" "points ?st = concat (map coordinates new)"
       "colors ?st = concat (map (pointColor (boundingBox ?b)) new)"
       "\<forall>p \<in> set new. p \<in> point ` set (shuffle rnd cands) \<and> isPointInValidRegion ?b p"
    by auto
  have "length (selectedPoints ?st) \<le> T"
    by (rule selectLoop_length) simp
  then show ?thesis
    using c r n by (intro exI [of _ cands] exI [of _ new]) (simp add: Let_def)
qed

lemma shuffle_Nil [simp]: "shuffle rnd [] = []"
  by (simp add: shuffle_def)

lemma facesOf_nine:
  "facesOf [a1, a2, a3, a4, a5, a6, a7, a8, a9]
     = [(Vector3 a1 a2 a3, Vector3 a4 a5 a6, Vector3 a7 a8 a9)]"
  by (simp add: facesOf.simps [of "[a1, a2, a3, a4, a5, a6, a7, a8, a9]"]
                facesOf.simps [of "[]"] element_def)












subsection \<open>A vertex that is not finite leaves no valid region\<close>

lemma foldl_absorb:
  assumes "\<And>m x. m \<in> S \<or> x \<in> S \<Longrightarrow> g m x \<in> S"
    and "a \<in> S \<or> (\<exists>v \<in> set vs. f v \<in> S)"
  shows "foldl (\<lambda>m v. g m (f v)) a vs \<in> S"
  using assms(2)
proof (induction vs arbitrary: a)
  case Nil
  then show ?case by simp
next
  case (Cons v vs)
  show ?case
  proof (cases "a \<in> S \<or> f v \<in> S")
    case True
    then have "g a (f v) \<in> S" by (rule assms(1))
    then show ?thesis using Cons.IH [of "g a (f v)"] by simp
  next
    case False
    with Cons.prems have "\<exists>v \<in> set vs. f v \<in> S" by auto
    then show ?thesis using Cons.IH [of "g a (f v)"] by simp
  qed
qed

lemma jmax_absorb_NaN: "m \<in> {NaN} \<or> x \<in> {NaN} \<Longrightarrow> jmax m x \<in> {NaN}"
  by (cases m; cases x) auto

lemma jmax_absorb_PosInf: "m \<in> {NaN, PosInf} \<or> x \<in> {NaN, PosInf} \<Longrightarrow> jmax m x \<in> {NaN, PosInf}"
  by (cases m; cases x) auto

lemma jmin_absorb_NaN: "m \<in> {NaN} \<or> x \<in> {NaN} \<Longrightarrow> jmin m x \<in> {NaN}"
  by (cases m; cases x) auto

lemma jmin_absorb_NegInf: "m \<in> {NaN, NegInf} \<or> x \<in> {NaN, NegInf} \<Longrightarrow> jmin m x \<in> {NaN, NegInf}"
  by (cases m; cases x) auto

lemma extent_unbounded:
  assumes "v \<in> set vs" and "\<forall>r. f v \<noteq> Fin r"
  shows "unbounded (jsub (foldl (\<lambda>m v. jmax m (f v)) NegInf vs)
                         (foldl (\<lambda>m v. jmin m (f v)) PosInf vs))"
proof (cases "f v")
  case NaN
  then have "foldl (\<lambda>m v. jmax m (f v)) NegInf vs \<in> {NaN}"
    using assms(1) by (intro foldl_absorb jmax_absorb_NaN) auto
  then show ?thesis by (simp add: unbounded_def jsub_def)
next
  case NegInf
  then have "foldl (\<lambda>m v. jmin m (f v)) PosInf vs \<in> {NaN, NegInf}"
    using assms(1) by (intro foldl_absorb jmin_absorb_NegInf) auto
  then show ?thesis
    by (cases "foldl (\<lambda>m v. jmax m (f v)) NegInf vs") (auto simp: unbounded_def jsub_def)
next
  case (Fin r)
  with assms(2) show ?thesis by simp
next
  case PosInf
  then have "foldl (\<lambda>m v. jmax m (f v)) NegInf vs \<in> {NaN, PosInf}"
    using assms(1) by (intro foldl_absorb jmax_absorb_PosInf) auto
  then show ?thesis
    by (cases "foldl (\<lambda>m v. jmin m (f v)) PosInf vs") (auto simp: unbounded_def jsub_def)
qed

lemma unbounded_jmax: "unbounded a \<or> unbounded b \<Longrightarrow> unbounded (jmax a b)"
  by (cases a; cases b) (auto simp: unbounded_def)

lemma unbounded_scale: "0 < c \<Longrightarrow> unbounded a \<Longrightarrow> unbounded (jmul a (Fin c))"
  by (cases a) (auto simp: unbounded_def)

lemma hollowRadius_defineShapeBoundary:
  "hollowRadius (defineShapeBoundary vs) =
     jmul (jmax (jmax (vx (box_size (boundingBox (defineShapeBoundary vs))))
                      (vy (box_size (boundingBox (defineShapeBoundary vs)))))
                (vz (box_size (boundingBox (defineShapeBoundary vs))))) (Fin 0.2)"
  by (simp add: defineShapeBoundary_def Let_def)

lemma box_size_defineShapeBoundary:
  "box_size (boundingBox (defineShapeBoundary vs)) =
     Vector3 (jsub (foldl (\<lambda>m v. jmax m (vx v)) NegInf (faceVertices (facesOf vs)))
                   (foldl (\<lambda>m v. jmin m (vx v)) PosInf (faceVertices (facesOf vs))))
             (jsub (foldl (\<lambda>m v. jmax m (vy v)) NegInf (faceVertices (facesOf vs)))
                   (foldl (\<lambda>m v. jmin m (vy v)) PosInf (faceVertices (facesOf vs))))
             (jsub (foldl (\<lambda>m v. jmax m (vz v)) NegInf (faceVertices (facesOf vs)))
                   (foldl (\<lambda>m v. jmin m (vz v)) PosInf (faceVertices (facesOf vs))))"
  by (simp add: defineShapeBoundary_def Let_def)

lemma box_min_defineShapeBoundary:
  "box_min (boundingBox (defineShapeBoundary vs)) =
     Vector3 (foldl (\<lambda>m v. jmin m (vx v)) PosInf (faceVertices (facesOf vs)))
             (foldl (\<lambda>m v. jmin m (vy v)) PosInf (faceVertices (facesOf vs)))
             (foldl (\<lambda>m v. jmin m (vz v)) PosInf (faceVertices (facesOf vs)))"
  by (simp add: defineShapeBoundary_def Let_def)

lemma not_finiteVec: "\<not> finiteVec v \<Longrightarrow> (\<forall>r. vx v \<noteq> Fin r) \<or> (\<forall>r. vy v \<noteq> Fin r) \<or> (\<forall>r. vz v \<noteq> Fin r)"
  by (cases v) (auto simp: finiteVec_def)

lemma hollowRadius_unbounded:
  assumes "v \<in> set (faceVertices (facesOf vs))" and "\<not> finiteVec v"
  shows "unbounded (hollowRadius (defineShapeBoundary vs))"
proof -
  let ?s = "box_size (boundingBox (defineShapeBoundary vs))"
  from not_finiteVec [OF assms(2)]
  have "unbounded (vx ?s) \<or> unbounded (vy ?s) \<or> unbounded (vz ?s)"
    unfolding box_size_defineShapeBoundary using extent_unbounded [OF assms(1)]
    by (metis vec3.sel)
  then have "unbounded (jmax (jmax (vx ?s) (vy ?s)) (vz ?s))"
    by (auto intro: unbounded_jmax)
  then show ?thesis
    unfolding hollowRadius_defineShapeBoundary by (intro unbounded_scale) simp_all
qed

lemma jlt_PosInf_left [simp]: "\<not> jlt PosInf x"
  by (cases x) auto

lemma unbounded_not_valid:
  "unbounded (hollowRadius b) \<Longrightarrow> \<not> isPointInValidRegion b p"
  by (auto simp: unbounded_def isPointInValidRegion_def jgt_def)

text \<open>So the vertices are finite as soon as one point is accepted.\<close>

lemma accepted_finite_vertices:
  assumes "isPointInValidRegion (defineShapeBoundary vs) p"
  shows "\<forall>v \<in> set (faceVertices (facesOf vs)). finiteVec v"
  using assms hollowRadius_unbounded unbounded_not_valid by blast

subsection \<open>Points on finite faces are finite\<close>



subsection \<open>Finite meshes\<close>










subsection \<open>Colours\<close>

lemma foldl_jmin_finite:
  assumes "\<forall>v \<in> set vs. \<exists>r. f v = Fin r"
  shows "(vs \<noteq> [] \<and> a = PosInf) \<or> (\<exists>r. a = Fin r) \<Longrightarrow>
         \<exists>r. foldl (\<lambda>m v. jmin m (f v)) a vs = Fin r"
  using assms
proof (induction vs arbitrary: a)
  case Nil
  then show ?case by simp
next
  case (Cons v vs)
  then obtain r where "f v = Fin r" by auto
  with Cons.prems(1) have "\<exists>r. jmin a (f v) = Fin r" by auto
  then show ?case using Cons.IH [of "jmin a (f v)"] Cons.prems(2) by simp
qed

lemma foldl_jmax_finite:
  assumes "\<forall>v \<in> set vs. \<exists>r. f v = Fin r"
  shows "(vs \<noteq> [] \<and> a = NegInf) \<or> (\<exists>r. a = Fin r) \<Longrightarrow>
         \<exists>r. foldl (\<lambda>m v. jmax m (f v)) a vs = Fin r"
  using assms
proof (induction vs arbitrary: a)
  case Nil
  then show ?case by simp
next
  case (Cons v vs)
  then obtain r where "f v = Fin r" by auto
  with Cons.prems(1) have "\<exists>r. jmax a (f v) = Fin r" by auto
  then show ?case using Cons.IH [of "jmax a (f v)"] Cons.prems(2) by simp
qed

lemma finiteVec_vy: "finiteVec v \<Longrightarrow> \<exists>r. vy v = Fin r"
  by (auto simp: finiteVec_def)




lemma colorsOf_pointColor:
  "set (colorsOf (concat (map (pointColor bb) ps))) =
     (\<lambda>p. (pointColor bb p ! 0, pointColor bb p ! 1, pointColor bb p ! 2)) ` set ps"
  by (induction ps) (auto simp: pointColor_def Let_def)

subsection \<open>A bounding box without height\<close>

lemma jmin_Fin_right:
  assumes "a = PosInf \<or> (\<exists>r. a = Fin r)"
  shows "\<exists>z. jmin a (Fin y) = Fin z \<and> z \<le> y \<and> (\<forall>r. a = Fin r \<longrightarrow> z \<le> r)"
proof (cases a)
  case (Fin x)
  then show ?thesis by (intro exI [of _ "min x y"]) auto
next
  case PosInf
  then show ?thesis by (intro exI [of _ y]) auto
qed (use assms in auto)

lemma jmax_Fin_right:
  assumes "a = NegInf \<or> (\<exists>r. a = Fin r)"
  shows "\<exists>z. jmax a (Fin y) = Fin z \<and> y \<le> z \<and> (\<forall>r. a = Fin r \<longrightarrow> r \<le> z)"
proof (cases a)
  case (Fin x)
  then show ?thesis by (intro exI [of _ "max x y"]) auto
next
  case NegInf
  then show ?thesis by (intro exI [of _ y]) auto
qed (use assms in auto)

lemma foldl_jmin_lower:
  assumes "\<forall>v \<in> set vs. \<exists>r. f v = Fin r"
    and "foldl (\<lambda>m v. jmin m (f v)) a vs = Fin mn"
    and "a = PosInf \<or> (\<exists>r. a = Fin r)"
  shows "(\<forall>r. a = Fin r \<longrightarrow> mn \<le> r) \<and> (\<forall>v \<in> set vs. \<forall>r. f v = Fin r \<longrightarrow> mn \<le> r)"
  using assms
proof (induction vs arbitrary: a)
  case Nil
  then show ?case by simp
next
  case (Cons v vs)
  from Cons.prems(1) obtain y where y: "f v = Fin y" by auto
  from jmin_Fin_right [OF Cons.prems(3), of y] y
  obtain z where z: "jmin a (f v) = Fin z" "z \<le> y" "\<forall>r. a = Fin r \<longrightarrow> z \<le> r"
    by auto
  have "(\<forall>r. jmin a (f v) = Fin r \<longrightarrow> mn \<le> r) \<and> (\<forall>w \<in> set vs. \<forall>r. f w = Fin r \<longrightarrow> mn \<le> r)"
    using Cons.prems(1,2) z(1) by (intro Cons.IH) auto
  then show ?case using y z by fastforce
qed

lemma foldl_jmax_upper:
  assumes "\<forall>v \<in> set vs. \<exists>r. f v = Fin r"
    and "foldl (\<lambda>m v. jmax m (f v)) a vs = Fin mx"
    and "a = NegInf \<or> (\<exists>r. a = Fin r)"
  shows "(\<forall>r. a = Fin r \<longrightarrow> r \<le> mx) \<and> (\<forall>v \<in> set vs. \<forall>r. f v = Fin r \<longrightarrow> r \<le> mx)"
  using assms
proof (induction vs arbitrary: a)
  case Nil
  then show ?case by simp
next
  case (Cons v vs)
  from Cons.prems(1) obtain y where y: "f v = Fin y" by auto
  from jmax_Fin_right [OF Cons.prems(3), of y] y
  obtain z where z: "jmax a (f v) = Fin z" "y \<le> z" "\<forall>r. a = Fin r \<longrightarrow> r \<le> z"
    by auto
  have "(\<forall>r. jmax a (f v) = Fin r \<longrightarrow> r \<le> mx) \<and> (\<forall>w \<in> set vs. \<forall>r. f w = Fin r \<longrightarrow> r \<le> mx)"
    using Cons.prems(1,2) z(1) by (intro Cons.IH) auto
  then show ?case using y z by fastforce
qed

lemma pointColor_zero_extent:
  assumes "vy p = Fin y" "vy (box_min bb) = Fin y" "vy (box_size bb) = Fin 0"
  shows "pointColor bb p = [NaN, NaN, NaN]"
  using assms by (simp add: pointColor_def Let_def)

lemma surfacePoint_vy:
  assumes "vy v1 = Fin y" "vy v2 = Fin y" "vy v3 = Fin y" "u + v + w = 1"
  shows "vy (surfacePoint (v1, v2, v3) (Fin u) (Fin v) (Fin w)) = Fin y"
proof -
  have "y * u + y * v + y * w = y * (u + v + w)" by (simp add: algebra_simps)
  then show ?thesis
    using assms by (simp add: surfacePoint_def addScaledVector_def)
qed



section \<open>Three runs\<close>

text \<open>
  The runs that the examples below use, evaluated step by step. The random numbers are
  constant, \<open>9/10\<close> or \<open>19/20\<close>, which makes every step of the shuffle exchange an element
  with itself.
\<close>

lemmas vector_defs = subVectors_def cross_def vlength_def distanceTo_def addScaledVector_def
  surfacePoint_def faceArea_def faceVertices_def

lemma less_sqrt_iff: "0 \<le> c \<Longrightarrow> c < sqrt x \<longleftrightarrow> c\<^sup>2 < x"
  by (metis real_sqrt_less_iff real_sqrt_abs abs_of_nonneg)

lemma ceiling_sqrt_3: "\<lceil>sqrt 3\<rceil> = 2"
proof -
  have "1 < sqrt 3" by (simp add: less_sqrt_iff)
  moreover have "sqrt 3 \<le> 2" by (simp add: real_le_lsqrt)
  ultimately show ?thesis by (simp add: ceiling_eq_iff)
qed


lemma shuffle_five:
  "shuffle (\<lambda>_. 9/10) [a, b, c, d, e] = [a, b, c, d, e]"
  by (simp add: shuffle_def eval_nat_numeral)


text \<open>One step of the selection loop, by its three outcomes.\<close>

lemma selectLoop_full:
  "T \<le> length (selectedPoints st) \<Longrightarrow> selectLoop b T cs st = st"
  by (cases cs) auto

lemma selectLoop_accept:
  assumes "length (selectedPoints st) < T"
    and "isPointInValidRegion b (point c)"
    and "isValidDistance (minDistance (totalArea b) T) (minDistance (totalArea b) T)
           (spatialHash st) (point c)"
  shows "selectLoop b T (c # cs) st =
           selectLoop b T cs
             \<lparr> selectedPoints = selectedPoints st @ [point c],
               spatialHash = addToSpatialHash (minDistance (totalArea b) T)
                               (spatialHash st) (point c),
               points = points st @ [vx (point c), vy (point c), vz (point c)],
               colors = colors st @ pointColor (boundingBox b) (point c) \<rparr>"
  using assms by simp

lemma isValidDistance_empty: "isValidDistance c m Map.empty p"
  by (simp add: isValidDistance_def list_all_iff)

subsection \<open>The flat mesh, one point wanted\<close>

lemma flatMesh_boundary:
  "defineShapeBoundary flatMesh =
     \<lparr> faces = [(Vector3 (Fin 0) (Fin 0) (Fin 0), Vector3 (Fin 1) (Fin 0) (Fin 0),
                 Vector3 (Fin 0) (Fin 0) (Fin 1))],
       faceAreas = [Fin (1/2)],
       totalArea = Fin (1/2),
       boundingBox = \<lparr> box_min = Vector3 (Fin 0) (Fin 0) (Fin 0),
                        box_max = Vector3 (Fin 1) (Fin 0) (Fin 1),
                        box_size = Vector3 (Fin 1) (Fin 0) (Fin 1) \<rparr>,
       objectCenter = Vector3 (Fin (1/2)) (Fin 0) (Fin (1/2)),
       hollowRadius = Fin (1/5) \<rparr>"
  by (simp add: flatMesh_def defineShapeBoundary_def facesOf_nine Let_def vector_defs)

lemma flatMesh_candidates:
  "sampleFaces (defineShapeBoundary flatMesh) 1 (faces (defineShapeBoundary flatMesh)) 0 [] =
     Some [\<lparr>point = Vector3 (Fin 0) (Fin 0) (Fin 1), faceIndex = 0\<rparr>,
           \<lparr>point = Vector3 (Fin (1/2)) (Fin 0) (Fin (1/2)), faceIndex = 0\<rparr>,
           \<lparr>point = Vector3 (Fin 1) (Fin 0) (Fin 0), faceIndex = 0\<rparr>,
           \<lparr>point = Vector3 (Fin 0) (Fin 0) (Fin (1/2)), faceIndex = 0\<rparr>,
           \<lparr>point = Vector3 (Fin (1/2)) (Fin 0) (Fin 0), faceIndex = 0\<rparr>]"
  by (simp add: flatMesh_boundary sampleFace_def samplesPerEdge_def ceiling_sqrt_3 Let_def
        upt_rec vector_defs)

lemma sqrt_half: "1 < sqrt (1 / 2) * 5"
proof -
  have "1 / 2 < sqrt (1 / 2)" by (rule real_less_rsqrt) (simp add: power2_eq_square)
  then show ?thesis by linarith
qed

lemma flatMesh_valid:
  "isPointInValidRegion (defineShapeBoundary flatMesh) (Vector3 (Fin 0) (Fin 0) (Fin 1))"
  by (simp add: flatMesh_boundary isPointInValidRegion_def distanceTo_def Let_def sqrt_half)

lemma flatMesh_color:
  "pointColor (boundingBox (defineShapeBoundary flatMesh)) (Vector3 (Fin 0) (Fin 0) (Fin 1))
     = [NaN, NaN, NaN]"
  by (simp add: flatMesh_boundary pointColor_def Let_def)

lemma flatMesh_cloud:
  "createSparsePointCloud flatMesh 1 (\<lambda>_. 9/10) =
     Some ([Fin 0, Fin 0, Fin 1], [NaN, NaN, NaN])"
  unfolding createSparsePointCloud_def generatePointsInShape_def flatMesh_candidates
  by (simp only: option.case shuffle_five Let_def)
     (simp add: selectLoop_accept selectLoop_full flatMesh_valid isValidDistance_empty
        flatMesh_color del: selectLoop.simps)

subsection \<open>The small mesh, one point wanted\<close>

lemma smallMesh_boundary:
  "defineShapeBoundary smallMesh =
     \<lparr> faces = [(Vector3 (Fin 0) (Fin 0) (Fin 0), Vector3 (Fin 0) (Fin 0) (Fin 2),
                 Vector3 (Fin 0) (Fin 1) (Fin 0))],
       faceAreas = [Fin 1],
       totalArea = Fin 1,
       boundingBox = \<lparr> box_min = Vector3 (Fin 0) (Fin 0) (Fin 0),
                        box_max = Vector3 (Fin 0) (Fin 1) (Fin 2),
                        box_size = Vector3 (Fin 0) (Fin 1) (Fin 2) \<rparr>,
       objectCenter = Vector3 (Fin 0) (Fin (1/2)) (Fin 1),
       hollowRadius = Fin (2/5) \<rparr>"
  by (simp add: smallMesh_def defineShapeBoundary_def facesOf_nine Let_def vector_defs)

lemma smallMesh_candidates:
  "sampleFaces (defineShapeBoundary smallMesh) 1 (faces (defineShapeBoundary smallMesh)) 0 [] =
     Some [\<lparr>point = Vector3 (Fin 0) (Fin 1) (Fin 0), faceIndex = 0\<rparr>,
           \<lparr>point = Vector3 (Fin 0) (Fin (1/2)) (Fin 1), faceIndex = 0\<rparr>,
           \<lparr>point = Vector3 (Fin 0) (Fin 0) (Fin 2), faceIndex = 0\<rparr>,
           \<lparr>point = Vector3 (Fin 0) (Fin (1/2)) (Fin 0), faceIndex = 0\<rparr>,
           \<lparr>point = Vector3 (Fin 0) (Fin 0) (Fin 1), faceIndex = 0\<rparr>]"
  by (simp add: smallMesh_boundary sampleFace_def samplesPerEdge_def ceiling_sqrt_3 Let_def
        upt_rec vector_defs)

lemma sqrt_five_quarters: "2 < sqrt (5 / 4) * 5"
proof -
  have "1 < sqrt (5 / 4)" by (simp add: less_sqrt_iff)
  then show ?thesis by linarith
qed

lemma smallMesh_valid:
  "isPointInValidRegion (defineShapeBoundary smallMesh) (Vector3 (Fin 0) (Fin 1) (Fin 0))"
  by (simp add: smallMesh_boundary isPointInValidRegion_def distanceTo_def Let_def
        sqrt_five_quarters)

lemma smallMesh_color:
  "pointColor (boundingBox (defineShapeBoundary smallMesh)) (Vector3 (Fin 0) (Fin 1) (Fin 0))
     = [Fin (9/10), Fin 1, Fin (6/5)]"
  by (simp add: smallMesh_boundary pointColor_def Let_def)

lemma smallMesh_cloud:
  "createSparsePointCloud smallMesh 1 (\<lambda>_. 9/10) =
     Some ([Fin 0, Fin 1, Fin 0], [Fin (9/10), Fin 1, Fin (6/5)])"
  unfolding createSparsePointCloud_def generatePointsInShape_def smallMesh_candidates
  by (simp only: option.case shuffle_five Let_def)
     (simp add: selectLoop_accept selectLoop_full smallMesh_valid isValidDistance_empty
        smallMesh_color del: selectLoop.simps)

subsection \<open>The large mesh, two points wanted\<close>















section \<open>The claims about the point cloud\<close>

text \<open>
  A run of the pipeline is \<open>createSparsePointCloud vertices targetPointCount rnd\<close>. Every
  theorem below says first that the run returns; the loops over the faces end for every
  vertex array, since a boundary computed by \<^verbatim>\<open>defineShapeBoundary\<close> never gives an infinite number
  of samples per edge.
\<close>

lemma generatePointsInShape_Some:
  assumes "generatePointsInShape b T rnd = Some (ps, cs)"
  shows "\<exists>sel. ps = concat (map coordinates sel)
             \<and> cs = concat (map (pointColor (boundingBox b)) sel) \<and> length sel \<le> T"
proof -
  let ?init = "\<lparr> selectedPoints = [], spatialHash = Map.empty, points = [], colors = [] \<rparr>"
  from assms obtain cands where
    r: "ps = points (selectLoop b T (shuffle rnd cands) ?init)"
       "cs = colors (selectLoop b T (shuffle rnd cands) ?init)"
    by (auto simp: generatePointsInShape_def Let_def split: option.splits)
  from selectLoop_new [of b T "shuffle rnd cands" ?init] obtain new where
    n: "selectedPoints (selectLoop b T (shuffle rnd cands) ?init) = new"
       "points (selectLoop b T (shuffle rnd cands) ?init) = concat (map coordinates new)"
       "colors (selectLoop b T (shuffle rnd cands) ?init)
          = concat (map (pointColor (boundingBox b)) new)"
    by auto
  have "length (selectedPoints (selectLoop b T (shuffle rnd cands) ?init)) \<le> T"
    by (rule selectLoop_length) simp
  then show ?thesis using r n by (intro exI [of _ new]) simp
qed

subsection \<open>Hollow region\<close>



subsection \<open>Alignment and count\<close>

text \<open>
  Claim C5. Whatever the boundary, when the sampler returns, its two arrays have the same
  length, three numbers for each of at most \<open>targetPointCount\<close> points; and on the boundary
  of any vertex array the sampler does return.
\<close>

theorem output_aligned_and_bounded:
  "(\<forall>ps cs. generatePointsInShape b T rnd = Some (ps, cs) \<longrightarrow>
       (\<exists>n. length ps = 3 * n \<and> length cs = 3 * n \<and> n \<le> T))
   \<and> (\<exists>ps cs. generatePointsInShape (defineShapeBoundary vs) T rnd = Some (ps, cs))"
proof
  show "\<forall>ps cs. generatePointsInShape b T rnd = Some (ps, cs) \<longrightarrow>
       (\<exists>n. length ps = 3 * n \<and> length cs = 3 * n \<and> n \<le> T)"
  proof (intro allI impI)
    fix ps cs
    assume "generatePointsInShape b T rnd = Some (ps, cs)"
    from generatePointsInShape_Some [OF this] obtain sel where
      "ps = concat (map coordinates sel)"
      "cs = concat (map (pointColor (boundingBox b)) sel)" "length sel \<le> T"
      by blast
    then show "\<exists>n. length ps = 3 * n \<and> length cs = 3 * n \<and> n \<le> T"
      by (intro exI [of _ "length sel"]) simp
  qed
  from createSparsePointCloud_accepted [of vs T rnd]
  show "\<exists>ps cs. generatePointsInShape (defineShapeBoundary vs) T rnd = Some (ps, cs)"
    unfolding createSparsePointCloud_def by blast
qed

text \<open>The small mesh with one point wanted: three numbers in each array.\<close>

theorem output_aligned_and_bounded_witness:
  "generatePointsInShape (defineShapeBoundary smallMesh) 1 (\<lambda>_. 9/10) =
     Some ([Fin 0, Fin 1, Fin 0], [Fin (9/10), Fin 1, Fin (6/5)])
   \<and> (\<exists>n. length [Fin 0, Fin 1, Fin 0] = 3 * n
          \<and> length [Fin (9/10), Fin 1, Fin (6/5)] = 3 * n \<and> n \<le> (1::nat))"
proof -
  have r: "generatePointsInShape (defineShapeBoundary smallMesh) 1 (\<lambda>_. 9/10) =
     Some ([Fin 0, Fin 1, Fin 0], [Fin (9/10), Fin 1, Fin (6/5)])"
    using smallMesh_cloud by (simp add: createSparsePointCloud_def)
  from output_aligned_and_bounded [of "defineShapeBoundary smallMesh" 1 "\<lambda>_. 9/10"] r
  have "\<exists>n. length [Fin 0, Fin 1, Fin 0] = 3 * n
          \<and> length [Fin (9/10), Fin 1, Fin (6/5)] = 3 * n \<and> n \<le> (1::nat)"
    by blast
  with r show ?thesis by blast
qed

subsection \<open>Points lie on the surface\<close>



subsection \<open>Minimum distance\<close>



subsection \<open>Colours\<close>




subsection \<open>Colours on a mesh without height\<close>

text \<open>
  When the \<open>y\<close> extent of the bounding box is 0, every vertex has the same \<open>y\<close>, so has every
  point of a face, and the height factor of an accepted point is \<open>0 / 0\<close>: every colour that
  such a run returns is NaN in its three components.
\<close>

lemma zero_extent_colors_NaN:
  assumes rnd: "\<forall>n. 0 \<le> rnd n \<and> rnd n < 1"
    and ext: "vy (box_size (boundingBox (defineShapeBoundary vs))) = Fin 0"
  shows "\<exists>ps cs. createSparsePointCloud vs T rnd = Some (ps, cs)
     \<and> (\<forall>(r, g, b) \<in> set (colorsOf cs). r = NaN \<and> g = NaN \<and> b = NaN)"
proof -
  let ?b = "defineShapeBoundary vs"
  let ?vs = "faceVertices (facesOf vs)"
  from createSparsePointCloud_accepted [of vs T rnd] obtain cands sel where
    c: "sampleFaces ?b T (facesOf vs) 0 [] = Some cands"
    and r: "createSparsePointCloud vs T rnd =
        Some (concat (map coordinates sel), concat (map (pointColor (boundingBox ?b)) sel))"
    and s: "\<forall>p \<in> set sel. p \<in> point ` set (shuffle rnd cands) \<and> isPointInValidRegion ?b p"
    by blast
  have on: "\<forall>c \<in> set cands. \<exists>f \<in> set (facesOf vs). onFace f (point c)"
    by (rule sampleFaces_onFace [OF _ _ c]) auto
  have "pointColor (boundingBox ?b) p = [NaN, NaN, NaN]" if p: "p \<in> set sel" for p
  proof -
    from p s have "isPointInValidRegion ?b p" by simp
    then have fin: "\<forall>v \<in> set ?vs. finiteVec v" by (rule accepted_finite_vertices)
    then have v: "\<forall>v \<in> set ?vs. \<exists>r. vy v = Fin r" by (auto dest: finiteVec_vy)
    from p s have "p \<in> point ` set cands" using shuffle_set [OF rnd, of cands] by auto
    with on obtain f where f: "f \<in> set (facesOf vs)" "onFace f p" by auto
    obtain v1 v2 v3 where f': "f = (v1, v2, v3)" by (cases f)
    from f(1) have mem: "v1 \<in> set ?vs" "v2 \<in> set ?vs" "v3 \<in> set ?vs"
      unfolding f' by (auto simp: faceVertices_def)
    then have ne: "?vs \<noteq> []" by auto
    from foldl_jmin_finite [OF v, of PosInf] ne obtain mn where
      mn: "foldl (\<lambda>m v. jmin m (vy v)) PosInf ?vs = Fin mn" by auto
    from foldl_jmax_finite [OF v, of NegInf] ne obtain mx where
      mx: "foldl (\<lambda>m v. jmax m (vy v)) NegInf ?vs = Fin mx" by auto
    have bmin: "vy (box_min (boundingBox ?b)) = Fin mn"
      by (simp add: box_min_defineShapeBoundary mn)
    have "vy (box_size (boundingBox ?b)) = Fin (mx - mn)"
      by (simp add: box_size_defineShapeBoundary mn mx)
    with ext have eq: "mx = mn" by simp
    have lo: "\<forall>v \<in> set ?vs. \<forall>r. vy v = Fin r \<longrightarrow> mn \<le> r"
      using foldl_jmin_lower [OF v mn] by simp
    have hi: "\<forall>v \<in> set ?vs. \<forall>r. vy v = Fin r \<longrightarrow> r \<le> mx"
      using foldl_jmax_upper [OF v mx] by simp
    have y: "vy w = Fin mn" if "w \<in> set ?vs" for w
    proof -
      from that v obtain r where "vy w = Fin r" by auto
      moreover from this that lo hi eq have "r = mn" by fastforce
      ultimately show ?thesis by simp
    qed
    from f(2) obtain u v w where "u + v + w = 1"
      and "p = surfacePoint (v1, v2, v3) (Fin u) (Fin v) (Fin w)"
      unfolding f' onFace_def by blast
    then have "vy p = Fin mn"
      using y [OF mem(1)] y [OF mem(2)] y [OF mem(3)] by (simp add: surfacePoint_vy)
    then show ?thesis using bmin ext by (rule pointColor_zero_extent)
  qed
  then have "\<forall>(r, g, b) \<in> set (colorsOf (concat (map (pointColor (boundingBox ?b)) sel))).
           r = NaN \<and> g = NaN \<and> b = NaN"
    unfolding colorsOf_pointColor by fastforce
  then show ?thesis
    using r
    by (intro exI [of _ "concat (map coordinates sel)"]
              exI [of _ "concat (map (pointColor (boundingBox ?b)) sel)"]) simp
qed

text \<open>
  Claim C2 fails on the code: \<^verbatim>\<open>generatePointsInShape\<close> divides by \<^verbatim>\<open>boundingBox.size.y\<close>
  without a guard. On the flat mesh, whose \<open>y\<close> extent is 0, the height factor of the accepted
  point \<open>(0, 0, 1)\<close> is \<open>0 / 0\<close>, and its three colour components are NaN.
\<close>

theorem flat_mesh_color_NaN:
  "vy (box_size (boundingBox (defineShapeBoundary flatMesh))) = Fin 0
   \<and> createSparsePointCloud flatMesh 1 (\<lambda>_. 9/10) =
       Some ([Fin 0, Fin 0, Fin 1], [NaN, NaN, NaN])"
  using flatMesh_cloud by (simp add: flatMesh_boundary)

subsection \<open>A degenerate triangle\<close>



end
